theory Spec2Isabelle
  imports Complex_Main "HOL-Library.Multiset"
begin

section \<open>Data model (catalog/models.py)\<close>

text \<open>
  A \<^verbatim>\<open>Product\<close> row is identified by its primary key: Django compares model instances by
  primary key (\<^verbatim>\<open>sim.product_a == product\<close>), and no operation below reads another
  column. The \<^verbatim>\<open>Product\<close> table is the list of its primary keys in the order the
  database returns them.

  A \<^verbatim>\<open>ProductSimilarity\<close> instance has the two foreign keys, the score and its own
  primary key, which is \<open>None\<close> until the instance has been inserted.

  A \<^verbatim>\<open>FloatField\<close> holds an IEEE double. The model takes a score as a real number: it
  covers the finite scores only (no NaN, no infinity, no overflow) and computes
  \<open>score + 0.1\<close> and \<open>score - 0.05\<close> exactly, where the code rounds to the nearest double.
  Nothing below speaks about a score that is not finite.
\<close>

datatype error = DoesNotExist | MultipleObjectsReturned | IntegrityError | Http404

record ProductSimilarity =
  pk :: "nat option"
  product_a :: int
  product_b :: int
  score :: real

record database =
  Product_objects :: "int list"
  ProductSimilarity_objects :: "ProductSimilarity list"


section \<open>The ORM operations the source calls\<close>

text \<open>
  \<^verbatim>\<open>Model.objects.get(**kwargs)\<close>: the one row matching the lookup; \<^verbatim>\<open>DoesNotExist\<close>
  when there is none, \<^verbatim>\<open>MultipleObjectsReturned\<close> when there are several.
\<close>

definition objects_get :: "('a \<Rightarrow> bool) \<Rightarrow> 'a list \<Rightarrow> error + 'a" where
  "objects_get P rows =
     (case filter P rows of
        [] \<Rightarrow> Inl DoesNotExist
      | [r] \<Rightarrow> Inr r
      | _ # _ # _ \<Rightarrow> Inl MultipleObjectsReturned)"

text \<open>\<^verbatim>\<open>get_object_or_404\<close> turns \<^verbatim>\<open>DoesNotExist\<close> (and nothing else) into \<^verbatim>\<open>Http404\<close>.\<close>

definition get_object_or_404 :: "('a \<Rightarrow> bool) \<Rightarrow> 'a list \<Rightarrow> error + 'a" where
  "get_object_or_404 P rows =
     (case objects_get P rows of
        Inl e \<Rightarrow> Inl (if e = DoesNotExist then Http404 else e)
      | Inr r \<Rightarrow> Inr r)"

text \<open>The next value of the auto-increment primary key: above every key in the table.\<close>

definition next_pk :: "ProductSimilarity list \<Rightarrow> nat" where
  "next_pk t = Suc (foldr max (map (\<lambda>r. case pk r of None \<Rightarrow> 0 | Some k \<Rightarrow> k) t) 0)"

definition same_pair :: "ProductSimilarity \<Rightarrow> ProductSimilarity \<Rightarrow> bool" where
  "same_pair self r = (product_a r = product_a self \<and> product_b r = product_b self)"

text \<open>
  \<^verbatim>\<open>INSERT\<close>: the row gets a fresh primary key when it has none; the statement fails with
  \<^verbatim>\<open>IntegrityError\<close>, changing nothing, when the primary key or the pair
  \<^verbatim>\<open>(product_a, product_b)\<close> (\<^verbatim>\<open>unique_together\<close>) is already in the table.
\<close>

definition insert_row ::
  "ProductSimilarity \<Rightarrow> ProductSimilarity list \<Rightarrow> (error + ProductSimilarity) \<times> ProductSimilarity list" where
  "insert_row self t =
     (let k = (case pk self of None \<Rightarrow> next_pk t | Some k \<Rightarrow> k);
          row = self\<lparr>pk := Some k\<rparr>
      in if list_ex (\<lambda>r. pk r = Some k) t \<or> list_ex (same_pair self) t
         then (Inl IntegrityError, t)
         else (Inr row, t @ [row]))"

text \<open>
  \<^verbatim>\<open>UPDATE ... WHERE id = k\<close>: the row with primary key \<open>k\<close> takes the instance's fields;
  \<^verbatim>\<open>IntegrityError\<close>, changing nothing, when another row already holds the pair.
\<close>

definition update_row ::
  "nat \<Rightarrow> ProductSimilarity \<Rightarrow> ProductSimilarity list \<Rightarrow> (error + ProductSimilarity) \<times> ProductSimilarity list" where
  "update_row k self t =
     (if list_ex (\<lambda>r. pk r \<noteq> Some k \<and> same_pair self r) t
      then (Inl IntegrityError, t)
      else (Inr self, map (\<lambda>r. if pk r = Some k then self else r) t))"

text \<open>
  \<^verbatim>\<open>Model.save(force_insert)\<close>: an instance whose primary key is in the table is updated,
  any other is inserted; \<^verbatim>\<open>force_insert\<close> (set by \<^verbatim>\<open>objects.create\<close>) always inserts.
  No validator runs: \<^verbatim>\<open>save\<close> does not call \<^verbatim>\<open>full_clean\<close>, and \<^verbatim>\<open>score\<close> declares none.
\<close>

definition Model_save ::
  "bool \<Rightarrow> ProductSimilarity \<Rightarrow> ProductSimilarity list \<Rightarrow> (error + ProductSimilarity) \<times> ProductSimilarity list" where
  "Model_save force_insert self t =
     (case pk self of
        None \<Rightarrow> insert_row self t
      | Some k \<Rightarrow>
          if \<not> force_insert \<and> list_ex (\<lambda>r. pk r = Some k) t
          then update_row k self t
          else insert_row self t)"

text \<open>
  \<^verbatim>\<open>ProductSimilarity.save\<close> (models.py): swap the two products when \<^verbatim>\<open>product_a\<close> has
  the larger id, then \<^verbatim>\<open>super().save()\<close>.
\<close>

definition ProductSimilarity_save ::
  "bool \<Rightarrow> ProductSimilarity \<Rightarrow> ProductSimilarity list \<Rightarrow> (error + ProductSimilarity) \<times> ProductSimilarity list" where
  "ProductSimilarity_save force_insert self t =
     (if product_a self > product_b self
      then Model_save force_insert (self\<lparr>product_a := product_b self, product_b := product_a self\<rparr>) t
      else Model_save force_insert self t)"

text \<open>\<^verbatim>\<open>ProductSimilarity.objects.create(product_a, product_b, score)\<close>: a new instance, saved
  with \<^verbatim>\<open>force_insert\<close>.\<close>

definition objects_create ::
  "int \<Rightarrow> int \<Rightarrow> real \<Rightarrow> ProductSimilarity list \<Rightarrow> (error + ProductSimilarity) \<times> ProductSimilarity list" where
  "objects_create a b s t =
     ProductSimilarity_save True \<lparr>pk = None, product_a = a, product_b = b, score = s\<rparr> t"

text \<open>
  \<^verbatim>\<open>ProductSimilarity.objects.get_or_create(product_a, product_b, score)\<close>, called with no
  \<^verbatim>\<open>defaults\<close>: all three keyword arguments are the lookup. When the lookup finds nothing
  the row is created; when the creation fails with \<^verbatim>\<open>IntegrityError\<close> the lookup is tried
  once more, and the \<^verbatim>\<open>IntegrityError\<close> is raised again if it still finds nothing.
\<close>

definition get_or_create ::
  "int \<Rightarrow> int \<Rightarrow> real \<Rightarrow> ProductSimilarity list \<Rightarrow> (error + ProductSimilarity \<times> bool) \<times> ProductSimilarity list" where
  "get_or_create a b s t =
     (let lookup = (\<lambda>r. product_a r = a \<and> product_b r = b \<and> score r = s) in
      case objects_get lookup t of
        Inr obj \<Rightarrow> (Inr (obj, False), t)
      | Inl e \<Rightarrow>
          if e = DoesNotExist then
            (case objects_create a b s t of
               (Inr obj, t') \<Rightarrow> (Inr (obj, True), t')
             | (Inl e', t') \<Rightarrow>
                 if e' = IntegrityError then
                   (case objects_get lookup t' of
                      Inr obj \<Rightarrow> (Inr (obj, False), t')
                    | Inl e'' \<Rightarrow> (Inl (if e'' = DoesNotExist then IntegrityError else e''), t'))
                 else (Inl e', t'))
          else (Inl e, t))"


section \<open>Bulk initialisation (management/commands/init\_similarities.py)\<close>

text \<open>\<^verbatim>\<open>itertools.combinations(products, 2)\<close>: the pairs of positions \<open>i < j\<close>, in
  lexicographic order.\<close>

fun combinations2 :: "'a list \<Rightarrow> ('a \<times> 'a) list" where
  "combinations2 [] = []"
| "combinations2 (x # xs) = map (Pair x) xs @ combinations2 xs"

text \<open>The body of the \<^verbatim>\<open>for\<close> loop of \<^verbatim>\<open>Command.handle\<close>, with the two counters; an
  exception leaves the loop with the table as it then is.\<close>

fun handle_loop ::
  "(int \<times> int) list \<Rightarrow> nat \<times> nat \<Rightarrow> ProductSimilarity list \<Rightarrow> (error + nat \<times> nat) \<times> ProductSimilarity list" where
  "handle_loop [] (total_pairs, new_created) t = (Inr (total_pairs, new_created), t)"
| "handle_loop ((prod1, prod2) # rest) (total_pairs, new_created) t =
     (case get_or_create (if prod1 < prod2 then prod1 else prod2)
                         (if prod1 < prod2 then prod2 else prod1) 0.5 t of
        (Inl e, t') \<Rightarrow> (Inl e, t')
      | (Inr (obj, created), t') \<Rightarrow>
          handle_loop rest (total_pairs + 1, if created then new_created + 1 else new_created) t')"

text \<open>\<^verbatim>\<open>Command.handle\<close>: the result is the pair \<^verbatim>\<open>(total_pairs, new_created)\<close> that the
  command prints.\<close>

definition handle :: "database \<Rightarrow> (error + nat \<times> nat) \<times> database" where
  "handle db =
     (case handle_loop (combinations2 (Product_objects db)) (0, 0) (ProductSimilarity_objects db) of
        (res, t') \<Rightarrow> (res, db\<lparr>ProductSimilarity_objects := t'\<rparr>))"


section \<open>The views (catalog/views.py)\<close>

subsection \<open>ProductDetailView.get\<close>

text \<open>
  \<^verbatim>\<open>filter(Q(product_a=product) | Q(product_b=product)).order_by('-score')[:3]\<close>: the rows
  involving the product, by descending score, the first three. Rows of equal score keep
  their table order.
\<close>

definition similarity_objs :: "int \<Rightarrow> ProductSimilarity list \<Rightarrow> ProductSimilarity list" where
  "similarity_objs product t =
     take 3 (sort_key (\<lambda>r. - score r) (filter (\<lambda>r. product_a r = product \<or> product_b r = product) t))"

datatype response = Product_only int | Product_and_recommendations int "int list"

definition ProductDetailView_get :: "bool \<Rightarrow> int \<Rightarrow> database \<Rightarrow> error + response" where
  "ProductDetailView_get raw pk0 db =
     (case get_object_or_404 (\<lambda>p. p = pk0) (Product_objects db) of
        Inl e \<Rightarrow> Inl e
      | Inr product \<Rightarrow>
          if raw then Inr (Product_only product)
          else Inr (Product_and_recommendations product
                 (map (\<lambda>sim. if product_a sim = product then product_b sim else product_a sim)
                    (similarity_objs product (ProductSimilarity_objects db)))))"

subsection \<open>UpdateSimilarityView\<close>

definition get_similarity_object ::
  "int \<Rightarrow> int \<Rightarrow> ProductSimilarity list \<Rightarrow> error + ProductSimilarity" where
  "get_similarity_object prod1 prod2 t =
     (if prod1 < prod2
      then get_object_or_404 (\<lambda>r. product_a r = prod1 \<and> product_b r = prod2) t
      else get_object_or_404 (\<lambda>r. product_a r = prod2 \<and> product_b r = prod1) t)"

text \<open>The loop over the unclicked products. Every \<^verbatim>\<open>save\<close> commits by itself: an
  exception leaves the table with the rows saved so far.\<close>

fun decrease_loop ::
  "int \<Rightarrow> int list \<Rightarrow> ProductSimilarity list \<Rightarrow> (error + unit) \<times> ProductSimilarity list" where
  "decrease_loop cur_product [] t = (Inr (), t)"
| "decrease_loop cur_product (other_product # rest) t =
     (case get_similarity_object cur_product other_product t of
        Inl e \<Rightarrow> (Inl e, t)
      | Inr sim_obj \<Rightarrow>
          (case ProductSimilarity_save False (sim_obj\<lparr>score := max (score sim_obj - 0.05) 0.0\<rparr>) t of
             (Inl e, t') \<Rightarrow> (Inl e, t')
           | (Inr saved, t') \<Rightarrow> decrease_loop cur_product rest t'))"

text \<open>
  \<^verbatim>\<open>UpdateSimilarityView.post\<close>. \<^verbatim>\<open>Product.objects.filter(pk__in=other_ids)\<close> is the
  products whose key is in the list, each once, in table order. The result is the HTTP
  status.
\<close>

definition UpdateSimilarityView_post ::
  "int \<Rightarrow> int \<Rightarrow> int list \<Rightarrow> database \<Rightarrow> (error + nat) \<times> database" where
  "UpdateSimilarityView_post cur_id clicked_id other_ids db =
     (case objects_get (\<lambda>p. p = cur_id) (Product_objects db) of
        Inl e \<Rightarrow> (Inl e, db)
      | Inr cur_product \<Rightarrow>
     (case objects_get (\<lambda>p. p = clicked_id) (Product_objects db) of
        Inl e \<Rightarrow> (Inl e, db)
      | Inr clicked_product \<Rightarrow>
     (let other_products = filter (\<lambda>p. p \<in> set other_ids) (Product_objects db) in
      case get_similarity_object cur_product clicked_product (ProductSimilarity_objects db) of
        Inl e \<Rightarrow> (Inl e, db)
      | Inr sim_obj \<Rightarrow>
     (case ProductSimilarity_save False (sim_obj\<lparr>score := min (score sim_obj + 0.1) 1.0\<rparr>)
             (ProductSimilarity_objects db) of
        (Inl e, t') \<Rightarrow> (Inl e, db\<lparr>ProductSimilarity_objects := t'\<rparr>)
      | (Inr saved, t') \<Rightarrow>
     (case decrease_loop cur_product other_products t' of
        (Inl e, t'') \<Rightarrow> (Inl e, db\<lparr>ProductSimilarity_objects := t''\<rparr>)
      | (Inr u, t'') \<Rightarrow> (Inr 204, db\<lparr>ProductSimilarity_objects := t''\<rparr>))))))"

subsection \<open>CreateProductView.post\<close>

text \<open>The loop over the other products: one \<^verbatim>\<open>objects.create\<close> each.\<close>

fun create_loop ::
  "int \<Rightarrow> int list \<Rightarrow> ProductSimilarity list \<Rightarrow> (error + unit) \<times> ProductSimilarity list" where
  "create_loop new_product [] t = (Inr (), t)"
| "create_loop new_product (other_product # rest) t =
     (case objects_create (if new_product < other_product then new_product else other_product)
                          (if new_product < other_product then other_product else new_product) 0.5 t of
        (Inl e, t') \<Rightarrow> (Inl e, t')
      | (Inr obj, t') \<Rightarrow> create_loop new_product rest t')"

text \<open>
  \<^verbatim>\<open>CreateProductView.post\<close> on a valid payload. \<^verbatim>\<open>serializer.save()\<close> inserts the product;
  \<open>new_id\<close> is the primary key the database gives it.
  \<^verbatim>\<open>Product.objects.exclude(id=new_product.id)\<close> is every other row of the table.
\<close>

definition CreateProductView_post :: "int \<Rightarrow> database \<Rightarrow> (error + nat) \<times> database" where
  "CreateProductView_post new_id db =
     (let products = Product_objects db @ [new_id] in
      case create_loop new_id (filter (\<lambda>p. p \<noteq> new_id) products) (ProductSimilarity_objects db) of
        (Inl e, t') \<Rightarrow> (Inl e, \<lparr>Product_objects = products, ProductSimilarity_objects = t'\<rparr>)
      | (Inr u, t') \<Rightarrow> (Inr 201, \<lparr>Product_objects = products, ProductSimilarity_objects = t'\<rparr>))"

subsection \<open>DeleteProductView.delete\<close>

text \<open>\<^verbatim>\<open>product.delete()\<close> removes the product and, by \<^verbatim>\<open>on_delete=CASCADE\<close> on both
  foreign keys, every similarity row that refers to it.\<close>

definition DeleteProductView_delete :: "int \<Rightarrow> database \<Rightarrow> (error + nat) \<times> database" where
  "DeleteProductView_delete pk0 db =
     (case get_object_or_404 (\<lambda>p. p = pk0) (Product_objects db) of
        Inl e \<Rightarrow> (Inl e, db)
      | Inr product \<Rightarrow>
          (Inr 204,
           \<lparr>Product_objects = filter (\<lambda>p. p \<noteq> product) (Product_objects db),
            ProductSimilarity_objects =
              filter (\<lambda>r. product_a r \<noteq> product \<and> product_b r \<noteq> product)
                (ProductSimilarity_objects db)\<rparr>))"


section \<open>Table constraints\<close>

text \<open>
  What the database itself enforces on the similarity table: every stored row has a primary
  key, no two rows share one, and no two rows share the pair \<^verbatim>\<open>(product_a, product_b)\<close>
  (\<^verbatim>\<open>unique_together\<close>).
\<close>

definition pair_of :: "ProductSimilarity \<Rightarrow> int \<times> int" where
  "pair_of r = (product_a r, product_b r)"

definition wf_table :: "ProductSimilarity list \<Rightarrow> bool" where
  "wf_table t =
     (distinct (map pk t) \<and> list_all (\<lambda>r. pk r \<noteq> None) t \<and> distinct (map pair_of t))"

text \<open>The table after row \<open>r\<close> has been given the score \<open>s\<close>, every other row as it was.\<close>

definition set_score :: "ProductSimilarity \<Rightarrow> real \<Rightarrow> ProductSimilarity list \<Rightarrow> ProductSimilarity list" where
  "set_score r s t = map (\<lambda>x. if x = r then r\<lparr>score := s\<rparr> else x) t"


text \<open>The canonical-ordering invariant: every stored row has \<^verbatim>\<open>product_a.id < product_b.id\<close>.\<close>

definition canonical :: "ProductSimilarity list \<Rightarrow> bool" where
  "canonical t = list_all (\<lambda>r. product_a r < product_b r) t"


text \<open>The two ids of a pair, smaller first, as the source orders them before a lookup or a
  creation; and the columns of a row without its primary key.\<close>

definition ordered :: "int \<times> int \<Rightarrow> int \<times> int" where
  "ordered pq = (if fst pq < snd pq then (fst pq, snd pq) else (snd pq, fst pq))"

definition columns :: "ProductSimilarity \<Rightarrow> int \<times> int \<times> real" where
  "columns r = (product_a r, product_b r, score r)"


text \<open>
  The table after the score of every record between \<open>cur\<close> and a product of \<open>S\<close> went
  through \<open>f\<close> once, every other record as it was.
\<close>

definition adjust_set ::
  "(real \<Rightarrow> real) \<Rightarrow> int \<Rightarrow> int set \<Rightarrow> ProductSimilarity list \<Rightarrow> ProductSimilarity list" where
  "adjust_set f cur S t =
     map (\<lambda>r. if pair_of r \<in> (\<lambda>p. ordered (cur, p)) ` S then r\<lparr>score := f (score r)\<rparr> else r) t"


section \<open>Lookups and saves on a constrained table\<close>

lemmas eval_defs =
  handle_def get_or_create_def objects_get_def objects_create_def ProductSimilarity_save_def
  Model_save_def insert_row_def update_row_def same_pair_def next_pk_def Let_def

lemma filter_key_unique:
  "distinct (map f t) \<Longrightarrow> r \<in> set t \<Longrightarrow> filter (\<lambda>x. f x = f r) t = [r]"
proof (induction t)
  case Nil
  then show ?case by simp
next
  case (Cons x t)
  show ?case
  proof (cases "x = r")
    case True
    with Cons.prems have "\<forall>y\<in>set t. f y \<noteq> f r" by (auto simp: image_iff)
    then have "filter (\<lambda>x. f x = f r) t = []" by (simp add: filter_empty_conv)
    with True show ?thesis by simp
  next
    case False
    with Cons.prems have "r \<in> set t" "f x \<noteq> f r" by force+
    with Cons show ?thesis by simp
  qed
qed

lemma objects_get_found:
  assumes "distinct (map f t)" "r \<in> set t" "\<And>x. P x = (f x = f r)"
  shows "objects_get P t = Inr r"
proof -
  have "P = (\<lambda>x. f x = f r)" using assms(3) by (intro ext) simp
  then have "filter P t = filter (\<lambda>x. f x = f r) t" by simp
  then show ?thesis using filter_key_unique [OF assms(1,2)] by (simp add: objects_get_def)
qed

lemma objects_get_missing:
  "\<forall>x\<in>set t. \<not> P x \<Longrightarrow> objects_get P t = Inl DoesNotExist"
  by (simp add: objects_get_def filter_empty_conv[THEN iffD2])

lemma wf_pk_eq: "wf_table t \<Longrightarrow> r \<in> set t \<Longrightarrow> x \<in> set t \<Longrightarrow> pk x = pk r \<Longrightarrow> x = r"
  by (auto simp: wf_table_def distinct_map inj_on_def)

lemma wf_pair_eq: "wf_table t \<Longrightarrow> r \<in> set t \<Longrightarrow> x \<in> set t \<Longrightarrow> pair_of x = pair_of r \<Longrightarrow> x = r"
  by (auto simp: wf_table_def distinct_map inj_on_def)

lemma wf_pk_Some: "wf_table t \<Longrightarrow> r \<in> set t \<Longrightarrow> \<exists>k. pk r = Some k"
  by (auto simp: wf_table_def list_all_iff)

text \<open>Saving a fetched row whose score alone was changed is an update of that row.\<close>

lemma save_fetched:
  assumes wf: "wf_table t" and r: "r \<in> set t" and le: "product_a r \<le> product_b r"
  shows "ProductSimilarity_save False (r\<lparr>score := s\<rparr>) t = (Inr (r\<lparr>score := s\<rparr>), set_score r s t)"
proof -
  obtain k where k: "pk r = Some k" using wf_pk_Some [OF wf r] by blast
  have ex: "list_ex (\<lambda>x. pk x = Some k) t" using r k by (auto simp: list_ex_iff)
  have no: "\<not> list_ex (\<lambda>x. pk x \<noteq> Some k \<and> same_pair (r\<lparr>score := s\<rparr>) x) t"
  proof
    assume "list_ex (\<lambda>x. pk x \<noteq> Some k \<and> same_pair (r\<lparr>score := s\<rparr>) x) t"
    then obtain x where x: "x \<in> set t" "pk x \<noteq> Some k" "pair_of x = pair_of r"
      by (auto simp: list_ex_iff same_pair_def pair_of_def)
    from wf_pair_eq [OF wf r x(1) x(3)] x(2) k show False by simp
  qed
  have m: "map (\<lambda>x. if pk x = Some k then r\<lparr>score := s\<rparr> else x) t = set_score r s t"
    unfolding set_score_def
  proof (rule map_cong [OF refl])
    fix x assume "x \<in> set t"
    then have "(pk x = Some k) = (x = r)" using wf_pk_eq [OF wf r] k by auto
    then show "(if pk x = Some k then r\<lparr>score := s\<rparr> else x) = (if x = r then r\<lparr>score := s\<rparr> else x)"
      by simp
  qed
  show ?thesis using le k ex no m
    by (simp add: ProductSimilarity_save_def Model_save_def update_row_def)
qed

lemma set_score_mem: "r \<in> set t \<Longrightarrow> r\<lparr>score := s\<rparr> \<in> set (set_score r s t)"
  by (auto simp: set_score_def image_iff)


section \<open>Saving a score outside the bounds\<close>

text \<open>
  Claim C8 says that \<^verbatim>\<open>save\<close> re-validates \<open>0 \<le> score \<le> 1\<close> and fails with an
  invariant violation on a score outside the bounds. \<^verbatim>\<open>ProductSimilarity.save\<close> has no
  such check: the stored row with score 0.5, saved with score 1.5, is stored with score 1.5
  and no error is raised.
\<close>

theorem save_out_of_bounds_counterexample:
  "ProductSimilarity_save False \<lparr>pk = Some 1, product_a = 1, product_b = 2, score = 1.5\<rparr>
     [\<lparr>pk = Some 1, product_a = 1, product_b = 2, score = 0.5\<rparr>]
   = (Inr \<lparr>pk = Some 1, product_a = 1, product_b = 2, score = 1.5\<rparr>,
      [\<lparr>pk = Some 1, product_a = 1, product_b = 2, score = 1.5\<rparr>])"
  by (simp add: ProductSimilarity_save_def Model_save_def update_row_def same_pair_def)

text \<open>
  Claim C8, as amended: \<^verbatim>\<open>save\<close> validates no bounds. Saving a stored record (in its
  stored orientation, in a table that meets the key and uniqueness constraints) after its
  score was set to any finite value \<open>s\<close>, inside or outside \<open>[0, 1]\<close>, succeeds and
  stores exactly \<open>s\<close>: no error, no clamping. The score \<open>s\<close> ranges over the reals, that
  is over finite values; what \<^verbatim>\<open>save\<close> does with NaN or an infinity is not stated.
\<close>

theorem save_persists_score_unchecked:
  assumes "wf_table t" and "r \<in> set t" and "product_a r \<le> product_b r"
  shows "ProductSimilarity_save False (r\<lparr>score := s\<rparr>) t = (Inr (r\<lparr>score := s\<rparr>), set_score r s t)
         \<and> r\<lparr>score := s\<rparr> \<in> set (set_score r s t)"
  using save_fetched [OF assms] set_score_mem [OF assms(2)] by simp

theorem save_persists_score_unchecked_witness:
  "wf_table [\<lparr>pk = Some 7, product_a = 3, product_b = 4, score = 1\<rparr>]
   \<and> ProductSimilarity_save False \<lparr>pk = Some 7, product_a = 3, product_b = 4, score = - 2\<rparr>
        [\<lparr>pk = Some 7, product_a = 3, product_b = 4, score = 1\<rparr>]
      = (Inr \<lparr>pk = Some 7, product_a = 3, product_b = 4, score = - 2\<rparr>,
         [\<lparr>pk = Some 7, product_a = 3, product_b = 4, score = - 2\<rparr>])"
proof -
  let ?r = "\<lparr>pk = Some 7, product_a = 3, product_b = 4, score = 1\<rparr>"
  have wf: "wf_table [?r]" by (simp add: wf_table_def)
  have "ProductSimilarity_save False (?r\<lparr>score := - 2\<rparr>) [?r]
        = (Inr (?r\<lparr>score := - 2\<rparr>), set_score ?r (- 2) [?r])"
    using save_persists_score_unchecked [OF wf, of ?r "- 2"] by simp
  then show ?thesis using wf by (simp add: set_score_def)
qed


section \<open>Bulk initialisation: re-running and failing\<close>

text \<open>
  Claim C3 says that re-running the bulk initialisation is a no-op on existing records,
  also where a record's score differs from the default, and fills the gaps. The command
  passes \<^verbatim>\<open>score=0.5\<close> to \<^verbatim>\<open>get_or_create\<close> as a lookup field: a pair whose record has
  another score is not found, its creation violates \<^verbatim>\<open>unique_together\<close>, and the command
  ends with \<^verbatim>\<open>IntegrityError\<close>. With products 1, 2, 3 and the one record (1, 2) at score
  0.6 the run fails at the first pair; the pairs (1, 3) and (2, 3) get no record and no
  counts are reported.
\<close>

theorem handle_rerun_integrity_error:
  "handle \<lparr>Product_objects = [1, 2, 3],
           ProductSimilarity_objects = [\<lparr>pk = Some 1, product_a = 1, product_b = 2, score = 0.6\<rparr>]\<rparr>
   = (Inl IntegrityError,
      \<lparr>Product_objects = [1, 2, 3],
       ProductSimilarity_objects = [\<lparr>pk = Some 1, product_a = 1, product_b = 2, score = 0.6\<rparr>]\<rparr>)"
  by (simp add: eval_defs)

lemma handle_loop_append:
  "handle_loop (ps1 @ ps2) acc t =
     (case handle_loop ps1 acc t of
        (Inl e, t') \<Rightarrow> (Inl e, t')
      | (Inr acc', t') \<Rightarrow> handle_loop ps2 acc' t')"
proof (induction ps1 acc t rule: handle_loop.induct)
  case (1 total_pairs new_created t)
  then show ?case by simp
next
  case (2 prod1 prod2 rest total_pairs new_created t)
  then show ?case by (simp split: prod.splits sum.splits)
qed

lemma get_or_create_error_unchanged:
  "get_or_create a b s t = (Inl e, t') \<Longrightarrow> t' = t"
  by (auto simp: get_or_create_def objects_create_def ProductSimilarity_save_def Model_save_def
        insert_row_def Let_def split: sum.splits if_splits prod.splits)

text \<open>
  Claim C9 says that one pair's failing creation does not abort the batch. The loop of
  \<^verbatim>\<open>Command.handle\<close> has no exception handler: with products 1, 2, 3 and the record (1, 3)
  at score 0.7, the pair (1, 2) is created, the pair (1, 3) fails, and the run ends there
  with the error; the pair (2, 3) is never processed and no counts are reported.
\<close>

theorem handle_aborts_counterexample:
  "handle \<lparr>Product_objects = [1, 2, 3],
           ProductSimilarity_objects = [\<lparr>pk = Some 1, product_a = 1, product_b = 3, score = 0.7\<rparr>]\<rparr>
   = (Inl IntegrityError,
      \<lparr>Product_objects = [1, 2, 3],
       ProductSimilarity_objects =
         [\<lparr>pk = Some 1, product_a = 1, product_b = 3, score = 0.7\<rparr>,
          \<lparr>pk = Some 2, product_a = 1, product_b = 2, score = 0.5\<rparr>]\<rparr>)"
  by (simp add: eval_defs)

text \<open>
  Claim C9, as amended: during bulk initialisation the failure of one pair's record
  creation aborts the run at that pair. The run ends with that pair's error instead of the
  counts, the table is as the pairs before the failing one left it (their records stay),
  and no later pair is processed.
\<close>

theorem handle_aborts_at_failing_pair:
  assumes "combinations2 (Product_objects db) = before @ (prod1, prod2) # later"
    and "handle_loop before (0, 0) (ProductSimilarity_objects db) = (Inr counts, t')"
    and "get_or_create (if prod1 < prod2 then prod1 else prod2)
           (if prod1 < prod2 then prod2 else prod1) 0.5 t' = (Inl e, t'')"
  shows "handle db = (Inl e, db\<lparr>ProductSimilarity_objects := t'\<rparr>)"
proof -
  have "t'' = t'" using get_or_create_error_unchanged [OF assms(3)] .
  then show ?thesis using assms
    by (cases counts) (simp add: handle_def handle_loop_append)
qed

theorem handle_aborts_at_failing_pair_witness:
  "combinations2 [1, 2, 3, 4 :: int] = [(1, 2)] @ (1, 3) # [(1, 4), (2, 3), (2, 4), (3, 4)]
   \<and> handle_loop [(1, 2)] (0, 0) [\<lparr>pk = Some 5, product_a = 1, product_b = 3, score = 0.25\<rparr>]
       = (Inr (1, 1), [\<lparr>pk = Some 5, product_a = 1, product_b = 3, score = 0.25\<rparr>,
                       \<lparr>pk = Some 6, product_a = 1, product_b = 2, score = 0.5\<rparr>])
   \<and> handle \<lparr>Product_objects = [1, 2, 3, 4],
              ProductSimilarity_objects = [\<lparr>pk = Some 5, product_a = 1, product_b = 3, score = 0.25\<rparr>]\<rparr>
       = (Inl IntegrityError,
          \<lparr>Product_objects = [1, 2, 3, 4],
           ProductSimilarity_objects =
             [\<lparr>pk = Some 5, product_a = 1, product_b = 3, score = 0.25\<rparr>,
              \<lparr>pk = Some 6, product_a = 1, product_b = 2, score = 0.5\<rparr>]\<rparr>)"
proof -
  let ?r = "\<lparr>pk = Some 5, product_a = 1, product_b = 3, score = 0.25\<rparr>"
  let ?n = "\<lparr>pk = Some 6, product_a = 1, product_b = 2, score = 0.5\<rparr>"
  let ?db = "\<lparr>Product_objects = [1, 2, 3, 4], ProductSimilarity_objects = [?r]\<rparr>"
  have c: "combinations2 (Product_objects ?db) = [(1, 2)] @ (1, 3) # [(1, 4), (2, 3), (2, 4), (3, 4)]"
    by simp
  have l: "handle_loop [(1, 2)] (0, 0) (ProductSimilarity_objects ?db) = (Inr (1, 1), [?r, ?n])"
    by (simp add: eval_defs)
  have g: "get_or_create (if (1::int) < 3 then 1 else 3) (if (1::int) < 3 then 3 else 1) 0.5 [?r, ?n]
           = (Inl IntegrityError, [?r, ?n])"
    by (simp add: eval_defs)
  show ?thesis using handle_aborts_at_failing_pair [OF c l g] c l by simp
qed


section \<open>Canonical ordering\<close>

lemma objects_get_Inr: "objects_get P t = Inr r \<Longrightarrow> r \<in> set t \<and> P r"
proof -
  assume a: "objects_get P t = Inr r"
  then have "filter P t = [r]"
    by (auto simp: objects_get_def split: list.splits)
  then have "r \<in> set (filter P t)" by simp
  then show ?thesis by simp
qed

lemma get_object_or_404_Inr: "get_object_or_404 P t = Inr r \<Longrightarrow> r \<in> set t \<and> P r"
  by (auto simp: get_object_or_404_def split: sum.splits dest: objects_get_Inr)

lemma get_similarity_object_Inr:
  "get_similarity_object prod1 prod2 t = Inr r \<Longrightarrow>
     r \<in> set t \<and> product_a r = min prod1 prod2 \<and> product_b r = max prod1 prod2"
  by (auto simp: get_similarity_object_def split: if_splits dest: get_object_or_404_Inr)

lemma canonical_Model_save:
  "canonical t \<Longrightarrow> product_a self < product_b self \<Longrightarrow> canonical (snd (Model_save fi self t))"
  by (auto simp: canonical_def Model_save_def insert_row_def update_row_def Let_def list_all_iff
           split: option.splits)

lemma Model_save_Inr:
  "Model_save fi self t = (Inr r', t') \<Longrightarrow>
     product_a r' = product_a self \<and> product_b r' = product_b self \<and> score r' = score self \<and> r' \<in> set t'"
  by (auto simp: Model_save_def insert_row_def update_row_def Let_def list_ex_iff image_iff
           split: option.splits if_splits)

lemma Model_save_Inl: "Model_save fi self t = (Inl e, t') \<Longrightarrow> t' = t"
  by (auto simp: Model_save_def insert_row_def update_row_def Let_def split: option.splits if_splits)

lemma canonical_save:
  "canonical t \<Longrightarrow> product_a self \<noteq> product_b self \<Longrightarrow>
     canonical (snd (ProductSimilarity_save fi self t))"
  by (auto simp: ProductSimilarity_save_def intro!: canonical_Model_save)

lemma save_Inr:
  "ProductSimilarity_save fi self t = (Inr r', t') \<Longrightarrow>
     product_a r' = min (product_a self) (product_b self) \<and>
     product_b r' = max (product_a self) (product_b self) \<and> score r' = score self \<and> r' \<in> set t'"
  by (auto simp: ProductSimilarity_save_def split: if_splits dest!: Model_save_Inr)

lemma save_Inl: "ProductSimilarity_save fi self t = (Inl e, t') \<Longrightarrow> t' = t"
  by (auto simp: ProductSimilarity_save_def split: if_splits dest: Model_save_Inl)

lemma canonical_objects_create:
  "canonical t \<Longrightarrow> a \<noteq> b \<Longrightarrow> canonical (snd (objects_create a b s t))"
  by (simp add: objects_create_def canonical_save)

lemma get_or_create_table:
  "snd (get_or_create a b s t) = t \<or> snd (get_or_create a b s t) = snd (objects_create a b s t)"
  by (auto simp: get_or_create_def Let_def split: sum.splits prod.splits dest: )

lemma canonical_get_or_create:
  "canonical t \<Longrightarrow> a \<noteq> b \<Longrightarrow> canonical (snd (get_or_create a b s t))"
  using get_or_create_table [of a b s t] canonical_objects_create [of t a b s] by auto

lemma canonical_handle_loop:
  "canonical t \<Longrightarrow> list_all (\<lambda>(p, q). p \<noteq> q) ps \<Longrightarrow> canonical (snd (handle_loop ps acc t))"
proof (induction ps acc t rule: handle_loop.induct)
  case (1 total_pairs new_created t)
  then show ?case by simp
next
  case (2 prod1 prod2 rest total_pairs new_created t)
  let ?g = "get_or_create (if prod1 < prod2 then prod1 else prod2)
              (if prod1 < prod2 then prod2 else prod1) 0.5 t"
  from 2(2,3) have c: "canonical (snd ?g)" by (auto intro!: canonical_get_or_create)
  show ?case
  proof (cases ?g)
    case (Pair res t')
    with c have ct: "canonical t'" by simp
    show ?thesis
    proof (cases res)
      case (Inl e)
      with Pair ct show ?thesis by simp
    next
      case (Inr oc)
      obtain obj created where oc: "oc = (obj, created)" by (cases oc)
      from 2(3) have "list_all (\<lambda>(p, q). p \<noteq> q) rest" by simp
      from 2(1) [OF Pair [symmetric] Inr oc [symmetric] ct this] Pair Inr oc
      show ?thesis by simp
    qed
  qed
qed

lemma combinations2_distinct_pairs:
  "distinct xs \<Longrightarrow> list_all (\<lambda>(p, q). p \<noteq> q) (combinations2 xs)"
  by (induction xs) (auto simp: list_all_iff)

lemma canonical_create_loop:
  "canonical t \<Longrightarrow> new_product \<notin> set others \<Longrightarrow> canonical (snd (create_loop new_product others t))"
proof (induction others arbitrary: t)
  case Nil
  then show ?case by simp
next
  case (Cons o1 rest)
  let ?c = "objects_create (if new_product < o1 then new_product else o1)
              (if new_product < o1 then o1 else new_product) 0.5 t"
  from Cons.prems have c: "canonical (snd ?c)" by (auto intro!: canonical_objects_create)
  show ?case
  proof (cases ?c)
    case (Pair res t')
    with c have ct: "canonical t'" by simp
    with Cons Pair show ?thesis by (cases res) auto
  qed
qed

lemma canonical_save_fetched:
  assumes "canonical t" "r \<in> set t"
  shows "canonical (snd (ProductSimilarity_save fi (r\<lparr>score := s\<rparr>) t))"
proof -
  from assms have "product_a r < product_b r" by (simp add: canonical_def list_all_iff)
  then show ?thesis using canonical_save [OF assms(1), of "r\<lparr>score := s\<rparr>"] by simp
qed

lemma canonical_decrease_loop:
  "canonical t \<Longrightarrow> canonical (snd (decrease_loop cur others t))"
proof (induction others arbitrary: t)
  case Nil
  then show ?case by simp
next
  case (Cons o1 rest)
  show ?case
  proof (cases "get_similarity_object cur o1 t")
    case (Inl e)
    with Cons.prems show ?thesis by simp
  next
    case (Inr r)
    then have r: "r \<in> set t" by (simp add: get_similarity_object_Inr)
    let ?s = "ProductSimilarity_save False (r\<lparr>score := max (score r - 0.05) 0.0\<rparr>) t"
    have c: "canonical (snd ?s)" using canonical_save_fetched [OF Cons.prems r] .
    show ?thesis
    proof (cases ?s)
      case (Pair res t')
      with c have ct: "canonical t'" by simp
      with Cons.IH [OF ct] Pair Inr show ?thesis by (cases res) auto
    qed
  qed
qed

lemma canonical_handle:
  "canonical (ProductSimilarity_objects db) \<Longrightarrow> distinct (Product_objects db) \<Longrightarrow>
     canonical (ProductSimilarity_objects (snd (handle db)))"
  using canonical_handle_loop [OF _ combinations2_distinct_pairs, of "ProductSimilarity_objects db" "Product_objects db" "(0, 0)"]
  by (auto simp: handle_def split: prod.splits)

lemma canonical_create_post:
  "canonical (ProductSimilarity_objects db) \<Longrightarrow>
     canonical (ProductSimilarity_objects (snd (CreateProductView_post new_id db)))"
  using canonical_create_loop [of "ProductSimilarity_objects db" new_id
          "filter (\<lambda>p. p \<noteq> new_id) (Product_objects db @ [new_id])"]
  by (auto simp: CreateProductView_post_def Let_def split: prod.splits sum.splits)

lemma canonical_update_post:
  assumes c: "canonical (ProductSimilarity_objects db)"
  shows "canonical (ProductSimilarity_objects (snd (UpdateSimilarityView_post cur clicked others db)))"
proof (cases "objects_get (\<lambda>p. p = cur) (Product_objects db)")
  case Inl
  then show ?thesis using c by (simp add: UpdateSimilarityView_post_def)
next
  case cur: (Inr cur_product)
  show ?thesis
  proof (cases "objects_get (\<lambda>p. p = clicked) (Product_objects db)")
    case Inl
    then show ?thesis using c cur by (simp add: UpdateSimilarityView_post_def)
  next
    case clk: (Inr clicked_product)
    let ?t = "ProductSimilarity_objects db"
    show ?thesis
    proof (cases "get_similarity_object cur_product clicked_product ?t")
      case Inl
      then show ?thesis using c cur clk by (simp add: UpdateSimilarityView_post_def)
    next
      case sim: (Inr r)
      then have r: "r \<in> set ?t" by (simp add: get_similarity_object_Inr)
      let ?s = "ProductSimilarity_save False (r\<lparr>score := min (score r + 0.1) 1.0\<rparr>) ?t"
      obtain res t' where s: "?s = (res, t')" by (cases ?s)
      have c1: "canonical t'"
        using canonical_save_fetched [OF c r, of False "min (score r + 0.1) 1.0"] s by simp
      show ?thesis
      proof (cases res)
        case Inl
        then show ?thesis using c1 cur clk sim s by (simp add: UpdateSimilarityView_post_def)
      next
        case saved: (Inr r')
        let ?d = "decrease_loop cur_product (filter (\<lambda>p. p \<in> set others) (Product_objects db)) t'"
        obtain res2 t'' where d: "?d = (res2, t'')" by (cases ?d)
        have c2: "canonical t''"
          using canonical_decrease_loop [OF c1, of cur_product "filter (\<lambda>p. p \<in> set others) (Product_objects db)"] d
          by simp
        show ?thesis using c2 cur clk sim s saved d
          by (cases res2) (simp_all add: UpdateSimilarityView_post_def)
      qed
    qed
  qed
qed

lemma canonical_delete:
  "canonical (ProductSimilarity_objects db) \<Longrightarrow>
     canonical (ProductSimilarity_objects (snd (DeleteProductView_delete pk0 db)))"
  by (auto simp: DeleteProductView_delete_def canonical_def list_all_iff split: sum.splits)


text \<open>
  Claim C2: a record saved with two distinct products, in either orientation, is stored
  with \<^verbatim>\<open>product_a\<close> the smaller and \<^verbatim>\<open>product_b\<close> the larger id; and the canonical
  ordering of every stored row is kept by every operation (the save itself, the bulk
  initialisation, product creation, feedback and product deletion), whether the operation
  ends normally or with an error.
\<close>

theorem canonical_ordering_kept:
  assumes "canonical (ProductSimilarity_objects db)"
    and "distinct (Product_objects db)"
    and "product_a self \<noteq> product_b self"
  shows "(case ProductSimilarity_save force_insert self (ProductSimilarity_objects db) of
            (Inl e, t') \<Rightarrow> t' = ProductSimilarity_objects db
          | (Inr stored, t') \<Rightarrow>
              stored \<in> set t' \<and> canonical t' \<and>
              product_a stored = min (product_a self) (product_b self) \<and>
              product_b stored = max (product_a self) (product_b self))
       \<and> canonical (ProductSimilarity_objects (snd (handle db)))
       \<and> canonical (ProductSimilarity_objects (snd (CreateProductView_post new_id db)))
       \<and> canonical (ProductSimilarity_objects
            (snd (UpdateSimilarityView_post cur_id clicked_id other_ids db)))
       \<and> canonical (ProductSimilarity_objects (snd (DeleteProductView_delete pk0 db)))"
proof -
  let ?t = "ProductSimilarity_objects db"
  obtain res t' where s: "ProductSimilarity_save force_insert self ?t = (res, t')"
    by (cases "ProductSimilarity_save force_insert self ?t")
  have c: "canonical t'" using canonical_save [OF assms(1,3), of force_insert] s by simp
  have "case (res, t') of
          (Inl e, t') \<Rightarrow> t' = ?t
        | (Inr stored, t') \<Rightarrow>
            stored \<in> set t' \<and> canonical t' \<and>
            product_a stored = min (product_a self) (product_b self) \<and>
            product_b stored = max (product_a self) (product_b self)"
  proof (cases res)
    case (Inl e)
    then show ?thesis using save_Inl s by simp
  next
    case (Inr stored)
    then show ?thesis using save_Inr [of force_insert self ?t stored t'] s c by simp
  qed
  then show ?thesis
    using s canonical_handle [OF assms(1,2)] canonical_create_post [OF assms(1)]
      canonical_update_post [OF assms(1)] canonical_delete [OF assms(1)]
    by simp
qed

theorem canonical_ordering_kept_witness:
  "canonical [\<lparr>pk = Some 1, product_a = 1, product_b = 2, score = 0.5\<rparr>]
   \<and> distinct [1, 2, 3 :: int]
   \<and> ProductSimilarity_save True \<lparr>pk = None, product_a = 3, product_b = 1, score = 0.5\<rparr>
        [\<lparr>pk = Some 1, product_a = 1, product_b = 2, score = 0.5\<rparr>]
      = (Inr \<lparr>pk = Some 2, product_a = 1, product_b = 3, score = 0.5\<rparr>,
         [\<lparr>pk = Some 1, product_a = 1, product_b = 2, score = 0.5\<rparr>,
          \<lparr>pk = Some 2, product_a = 1, product_b = 3, score = 0.5\<rparr>])
   \<and> canonical (ProductSimilarity_objects (snd (handle
        \<lparr>Product_objects = [1, 2, 3],
         ProductSimilarity_objects = [\<lparr>pk = Some 1, product_a = 1, product_b = 2, score = 0.5\<rparr>]\<rparr>)))
   \<and> canonical (ProductSimilarity_objects (snd (UpdateSimilarityView_post 2 1 [3]
        \<lparr>Product_objects = [1, 2, 3],
         ProductSimilarity_objects = [\<lparr>pk = Some 1, product_a = 1, product_b = 2, score = 0.5\<rparr>]\<rparr>)))"
proof -
  let ?r = "\<lparr>pk = Some 1, product_a = 1, product_b = 2, score = 0.5\<rparr>"
  let ?db = "\<lparr>Product_objects = [1, 2, 3], ProductSimilarity_objects = [?r]\<rparr>"
  let ?self = "\<lparr>pk = None, product_a = 3, product_b = 1, score = 0.5\<rparr>"
  have c: "canonical (ProductSimilarity_objects ?db)" by (simp add: canonical_def)
  have d: "distinct (Product_objects ?db)" by simp
  have n: "product_a ?self \<noteq> product_b ?self" by simp
  have e: "ProductSimilarity_save True ?self [?r]
           = (Inr \<lparr>pk = Some 2, product_a = 1, product_b = 3, score = 0.5\<rparr>,
              [?r, \<lparr>pk = Some 2, product_a = 1, product_b = 3, score = 0.5\<rparr>])"
    by (simp add: eval_defs)
  show ?thesis
    using canonical_ordering_kept [OF c d n, of True 4 2 1 "[3]" 1] c e by simp
qed


section \<open>Creating the records of new pairs\<close>

lemma foldr_max_ge: "k \<in> set ks \<Longrightarrow> k \<le> foldr max ks (0::nat)"
  by (induction ks) (auto simp: max_def)

lemma next_pk_fresh: "\<not> list_ex (\<lambda>r. pk r = Some (next_pk t)) t"
proof
  assume "list_ex (\<lambda>r. pk r = Some (next_pk t)) t"
  then obtain r where r: "r \<in> set t" "pk r = Some (next_pk t)" by (auto simp: list_ex_iff)
  then have "next_pk t \<in> set (map (\<lambda>r. case pk r of None \<Rightarrow> 0 | Some k \<Rightarrow> k) t)"
    by (force simp: image_iff)
  from foldr_max_ge [OF this] show False by (simp add: next_pk_def)
qed

lemma objects_create_fresh:
  assumes "a \<le> b" and "(a, b) \<notin> set (map pair_of t)"
  shows "objects_create a b s t =
           (Inr \<lparr>pk = Some (next_pk t), product_a = a, product_b = b, score = s\<rparr>,
            t @ [\<lparr>pk = Some (next_pk t), product_a = a, product_b = b, score = s\<rparr>])"
proof -
  have "\<not> list_ex (same_pair \<lparr>pk = None, product_a = a, product_b = b, score = s\<rparr>) t"
    using assms(2) by (auto simp: list_ex_iff same_pair_def pair_of_def image_iff)
  then show ?thesis using assms(1) next_pk_fresh [of t]
    by (simp add: objects_create_def ProductSimilarity_save_def Model_save_def insert_row_def Let_def)
qed

lemma get_or_create_fresh:
  assumes "a \<le> b" and "(a, b) \<notin> set (map pair_of t)"
  shows "get_or_create a b s t =
           (Inr (\<lparr>pk = Some (next_pk t), product_a = a, product_b = b, score = s\<rparr>, True),
            t @ [\<lparr>pk = Some (next_pk t), product_a = a, product_b = b, score = s\<rparr>])"
proof -
  have "\<forall>x\<in>set t. \<not> (product_a x = a \<and> product_b x = b \<and> score x = s)"
    using assms(2) by (auto simp: pair_of_def image_iff)
  from objects_get_missing [OF this] show ?thesis
    by (simp add: get_or_create_def objects_create_fresh [OF assms])
qed

lemma ordered_le: "fst (ordered pq) \<le> snd (ordered pq)"
  by (simp add: ordered_def)

lemma handle_loop_fresh:
  assumes "distinct (map ordered ps)" and "set (map pair_of t) \<inter> set (map ordered ps) = {}"
  shows "\<exists>rows. handle_loop ps (total_pairs, new_created) t
                   = (Inr (total_pairs + length ps, new_created + length ps), t @ rows)
                \<and> map columns rows = map (\<lambda>pq. (fst (ordered pq), snd (ordered pq), 0.5)) ps"
  using assms
proof (induction ps arbitrary: t total_pairs new_created)
  case Nil
  then show ?case by simp
next
  case (Cons pq ps)
  obtain prod1 prod2 where pq: "pq = (prod1, prod2)" by (cases pq)
  let ?a = "if prod1 < prod2 then prod1 else prod2"
  let ?b = "if prod1 < prod2 then prod2 else prod1"
  let ?row = "\<lparr>pk = Some (next_pk t), product_a = ?a, product_b = ?b, score = 0.5\<rparr>"
  have o: "ordered pq = (?a, ?b)" by (simp add: ordered_def pq)
  have le: "?a \<le> ?b" by simp
  have notin: "(?a, ?b) \<notin> set (map pair_of t)" using Cons.prems(2) o by auto
  have g: "get_or_create ?a ?b 0.5 t = (Inr (?row, True), t @ [?row])"
    using get_or_create_fresh [OF le notin] .
  have d: "distinct (map ordered ps)" using Cons.prems(1) by simp
  have "pair_of ?row = ordered pq" using o by (simp add: pair_of_def)
  then have i: "set (map pair_of (t @ [?row])) \<inter> set (map ordered ps) = {}"
    using Cons.prems by auto
  from Cons.IH [OF d i, of "total_pairs + 1" "new_created + 1"]
  obtain rows where rows:
    "handle_loop ps (total_pairs + 1, new_created + 1) (t @ [?row])
       = (Inr (total_pairs + 1 + length ps, new_created + 1 + length ps), (t @ [?row]) @ rows)"
    "map columns rows = map (\<lambda>pq. (fst (ordered pq), snd (ordered pq), 0.5)) ps"
    by blast
  have "handle_loop (pq # ps) (total_pairs, new_created) t
          = (Inr (total_pairs + length (pq # ps), new_created + length (pq # ps)), t @ (?row # rows))"
    using g rows(1) by (simp add: pq)
  moreover have "map columns (?row # rows)
          = map (\<lambda>pq. (fst (ordered pq), snd (ordered pq), 0.5)) (pq # ps)"
    using rows(2) o by (simp add: columns_def)
  ultimately show ?case by blast
qed

lemma length_combinations2: "length (combinations2 xs) = length xs * (length xs - 1) div 2"
proof (induction xs)
  case Nil
  then show ?case by simp
next
  case (Cons x xs)
  have "length xs + length xs * (length xs - 1) div 2 = (length xs + 1) * length xs div 2"
    by (cases "length xs") (simp_all add: algebra_simps)
  with Cons show ?case by simp
qed

lemma set_combinations2: "set (combinations2 xs) \<subseteq> set xs \<times> set xs"
  by (induction xs) auto

lemma ordered_image_Pair:
  assumes "x \<notin> set xs"
  shows "ordered ` Pair x ` set xs
           = {(p, q). (p = x \<and> q \<in> set xs \<or> q = x \<and> p \<in> set xs) \<and> p < q}"
    (is "?L = ?R")
proof (rule set_eqI)
  fix pq :: "int \<times> int"
  obtain p q where pq: "pq = (p, q)" by (cases pq)
  have ne: "y \<noteq> x" if "y \<in> set xs" for y using assms that by auto
  show "pq \<in> ?L \<longleftrightarrow> pq \<in> ?R"
  proof
    assume "pq \<in> ?L"
    then obtain y where y: "y \<in> set xs" "pq = ordered (x, y)" by auto
    with ne [OF y(1)] show "pq \<in> ?R" by (auto simp: ordered_def pq split: if_splits)
  next
    assume "pq \<in> ?R"
    then consider "p = x" "q \<in> set xs" "p < q" | "q = x" "p \<in> set xs" "p < q"
      by (auto simp: pq)
    then show "pq \<in> ?L"
    proof cases
      case 1
      then have "pq = ordered (x, q)" by (simp add: ordered_def pq)
      with 1 show ?thesis by blast
    next
      case 2
      then have "pq = ordered (x, p)" by (simp add: ordered_def pq)
      with 2 show ?thesis by blast
    qed
  qed
qed

lemma set_ordered_combinations2:
  "distinct xs \<Longrightarrow>
     ordered ` set (combinations2 xs) = {(p, q). p \<in> set xs \<and> q \<in> set xs \<and> p < q}"
proof (induction xs)
  case Nil
  then show ?case by simp
next
  case (Cons x xs)
  then have x: "x \<notin> set xs" and IH: "ordered ` set (combinations2 xs) = {(p, q). p \<in> set xs \<and> q \<in> set xs \<and> p < q}"
    by simp_all
  have "ordered ` set (combinations2 (x # xs))
          = ordered ` Pair x ` set xs \<union> ordered ` set (combinations2 xs)"
    by (simp add: image_Un)
  also have "\<dots> = {(p, q). (p = x \<and> q \<in> set xs \<or> q = x \<and> p \<in> set xs) \<and> p < q}
                  \<union> {(p, q). p \<in> set xs \<and> q \<in> set xs \<and> p < q}"
    by (simp only: ordered_image_Pair [OF x] IH)
  also have "\<dots> = {(p, q). p \<in> set (x # xs) \<and> q \<in> set (x # xs) \<and> p < q}"
    by auto
  finally show ?case .
qed

lemma distinct_ordered_combinations2:
  "distinct xs \<Longrightarrow> distinct (map ordered (combinations2 xs))"
proof (induction xs)
  case Nil
  then show ?case by simp
next
  case (Cons x xs)
  then have x: "x \<notin> set xs" and dxs: "distinct xs" by simp_all
  have "inj_on (\<lambda>y. ordered (x, y)) (set xs)"
    by (auto simp: inj_on_def ordered_def split: if_splits)
  then have d1: "distinct (map ordered (map (Pair x) xs))"
    using dxs by (simp add: distinct_map comp_def)
  have "ordered ` Pair x ` set xs \<inter> ordered ` set (combinations2 xs) = {}"
    unfolding ordered_image_Pair [OF x] set_ordered_combinations2 [OF dxs] using x by auto
  then have "set (map ordered (map (Pair x) xs)) \<inter> set (map ordered (combinations2 xs)) = {}"
    by (simp add: image_image)
  with d1 Cons.IH [OF dxs] show ?case by simp
qed


lemma ordered_min_max: "ordered (p, q) = (min p q, max p q)"
  by (auto simp: ordered_def min_def max_def)

lemma pair_of_columns: "pair_of r = (fst (columns r), fst (snd (columns r)))"
  by (simp add: pair_of_def columns_def)

lemma score_columns: "score r = snd (snd (columns r))"
  by (simp add: columns_def)

lemma map_pair_of_rows:
  assumes "map columns rows = map (\<lambda>pq. (fst (ordered pq), snd (ordered pq), s)) ps"
  shows "map pair_of rows = map ordered ps"
proof -
  have "map pair_of rows = map (\<lambda>c. (fst c, fst (snd c))) (map columns rows)"
    by (simp add: pair_of_columns comp_def)
  also have "\<dots> = map ordered ps" unfolding assms by (simp add: comp_def)
  finally show ?thesis .
qed

lemma map_score_rows:
  assumes "map columns rows = map (\<lambda>pq. (fst (ordered pq), snd (ordered pq), s)) ps"
  shows "list_all (\<lambda>r. score r = s) rows"
proof -
  have "map score rows = map (\<lambda>c. snd (snd c)) (map columns rows)"
    by (simp add: score_columns comp_def)
  also have "\<dots> = map (\<lambda>pq. s) ps" unfolding assms by (simp add: comp_def)
  finally have "set (map score rows) \<subseteq> {s}" by auto
  then show ?thesis by (auto simp: list_all_iff)
qed

text \<open>
  Claim C6: with \<open>N\<close> products and no similarity record, the bulk initialisation succeeds,
  reports \<open>N * (N - 1) / 2\<close> pairs considered and as many records created, and leaves
  exactly that many records: one for each unordered pair of distinct products (stored
  smaller id first, no pair twice, no product with itself), each at score 0.5.
\<close>

theorem handle_creates_all_pairs:
  assumes "distinct (Product_objects db)" and "ProductSimilarity_objects db = []"
  shows "fst (handle db)
           = Inr (length (Product_objects db) * (length (Product_objects db) - 1) div 2,
                  length (Product_objects db) * (length (Product_objects db) - 1) div 2)
       \<and> Product_objects (snd (handle db)) = Product_objects db
       \<and> length (ProductSimilarity_objects (snd (handle db)))
           = length (Product_objects db) * (length (Product_objects db) - 1) div 2
       \<and> distinct (map pair_of (ProductSimilarity_objects (snd (handle db))))
       \<and> set (map pair_of (ProductSimilarity_objects (snd (handle db))))
           = {(p, q). p \<in> set (Product_objects db) \<and> q \<in> set (Product_objects db) \<and> p < q}
       \<and> list_all (\<lambda>r. score r = 0.5) (ProductSimilarity_objects (snd (handle db)))"
proof -
  let ?ps = "combinations2 (Product_objects db)"
  have d: "distinct (map ordered ?ps)" using distinct_ordered_combinations2 [OF assms(1)] .
  have e: "set (map pair_of []) \<inter> set (map ordered ?ps) = {}" by simp
  from handle_loop_fresh [OF d e, of 0 0] obtain rows where
    h: "handle_loop ?ps (0, 0) [] = (Inr (length ?ps, length ?ps), rows)"
    and c: "map columns rows = map (\<lambda>pq. (fst (ordered pq), snd (ordered pq), 0.5)) ?ps"
    by auto
  have res: "handle db = (Inr (length ?ps, length ?ps), db\<lparr>ProductSimilarity_objects := rows\<rparr>)"
    using h assms(2) by (simp add: handle_def)
  have len: "length rows = length ?ps" using arg_cong [OF c, of length] by simp
  have po: "map pair_of rows = map ordered ?ps" using map_pair_of_rows [OF c] .
  have sc: "list_all (\<lambda>r. score r = 0.5) rows" using map_score_rows [OF c] .
  have st: "set (map pair_of rows)
              = {(p, q). p \<in> set (Product_objects db) \<and> q \<in> set (Product_objects db) \<and> p < q}"
    using set_ordered_combinations2 [OF assms(1)] po by simp
  show ?thesis
    using res len sc st d po by (simp add: length_combinations2)
qed

theorem handle_creates_all_pairs_witness:
  "distinct [3, 1, 2 :: int]
   \<and> fst (handle \<lparr>Product_objects = [3, 1, 2], ProductSimilarity_objects = []\<rparr>) = Inr (3, 3)
   \<and> length (ProductSimilarity_objects
        (snd (handle \<lparr>Product_objects = [3, 1, 2], ProductSimilarity_objects = []\<rparr>))) = 3
   \<and> set (map pair_of (ProductSimilarity_objects
        (snd (handle \<lparr>Product_objects = [3, 1, 2], ProductSimilarity_objects = []\<rparr>))))
       = {(1, 2), (1, 3), (2, 3)}"
proof -
  let ?db = "\<lparr>Product_objects = [3, 1, 2], ProductSimilarity_objects = []\<rparr>"
  have d: "distinct (Product_objects ?db)" by simp
  have e: "ProductSimilarity_objects ?db = []" by simp
  have s: "{(p, q). p \<in> set [3, 1, 2 :: int] \<and> q \<in> set [3, 1, 2 :: int] \<and> p < q}
             = {(1, 2), (1, 3), (2, 3)}"
    by auto
  show ?thesis using handle_creates_all_pairs [OF d e] s by simp
qed


section \<open>Linking a new product\<close>

lemma create_loop_fresh:
  assumes "distinct (map (\<lambda>p. ordered (new_product, p)) others)"
    and "set (map pair_of t) \<inter> set (map (\<lambda>p. ordered (new_product, p)) others) = {}"
  shows "\<exists>rows. create_loop new_product others t = (Inr (), t @ rows)
                \<and> map columns rows
                    = map (\<lambda>p. (min new_product p, max new_product p, 0.5)) others"
  using assms
proof (induction others arbitrary: t)
  case Nil
  then show ?case by simp
next
  case (Cons p others)
  let ?a = "if new_product < p then new_product else p"
  let ?b = "if new_product < p then p else new_product"
  let ?row = "\<lparr>pk = Some (next_pk t), product_a = ?a, product_b = ?b, score = 0.5\<rparr>"
  have o: "ordered (new_product, p) = (?a, ?b)" by (simp add: ordered_def)
  have le: "?a \<le> ?b" by simp
  have notin: "(?a, ?b) \<notin> set (map pair_of t)" using Cons.prems(2) o by auto
  have c: "objects_create ?a ?b 0.5 t = (Inr ?row, t @ [?row])"
    using objects_create_fresh [OF le notin] .
  have d: "distinct (map (\<lambda>p. ordered (new_product, p)) others)" using Cons.prems(1) by simp
  have "pair_of ?row = ordered (new_product, p)" using o by (simp add: pair_of_def)
  then have i: "set (map pair_of (t @ [?row])) \<inter> set (map (\<lambda>p. ordered (new_product, p)) others) = {}"
    using Cons.prems by auto
  from Cons.IH [OF d i] obtain rows where rows:
    "create_loop new_product others (t @ [?row]) = (Inr (), (t @ [?row]) @ rows)"
    "map columns rows = map (\<lambda>p. (min new_product p, max new_product p, 0.5)) others"
    by blast
  have "create_loop new_product (p # others) t = (Inr (), t @ (?row # rows))"
    using c rows(1) by simp
  moreover have "map columns (?row # rows)
          = map (\<lambda>p. (min new_product p, max new_product p, 0.5)) (p # others)"
    using rows(2) by (simp add: columns_def min_def max_def)
  ultimately show ?case by blast
qed

lemma distinct_ordered_Pair:
  "distinct others \<Longrightarrow> distinct (map (\<lambda>p. ordered (new_product, p)) others)"
proof -
  assume d: "distinct others"
  have "inj_on (\<lambda>p. ordered (new_product, p)) (set others)"
    by (auto simp: inj_on_def ordered_def split: if_splits)
  with d show ?thesis by (simp add: distinct_map)
qed

text \<open>
  Claim C7: creating a product in a catalog of \<open>M\<close> products adds exactly \<open>M\<close> similarity
  records, one for each existing product, each pairing the new product with that product
  (smaller id first) at score 0.5, and none pairing the new product with itself. The
  database gives the new product a key no product has, and no stored record refers to a
  product that does not exist.
\<close>

theorem create_links_new_product:
  assumes "distinct (Product_objects db)"
    and "new_id \<notin> set (Product_objects db)"
    and "list_all (\<lambda>r. product_a r \<noteq> new_id \<and> product_b r \<noteq> new_id) (ProductSimilarity_objects db)"
  shows "\<exists>rows. CreateProductView_post new_id db
                   = (Inr 201, \<lparr>Product_objects = Product_objects db @ [new_id],
                                ProductSimilarity_objects = ProductSimilarity_objects db @ rows\<rparr>)
                \<and> length rows = length (Product_objects db)
                \<and> map columns rows
                    = map (\<lambda>p. (min new_id p, max new_id p, 0.5)) (Product_objects db)
                \<and> list_all (\<lambda>r. product_a r < product_b r) rows"
proof -
  let ?others = "Product_objects db"
  let ?t = "ProductSimilarity_objects db"
  have f: "filter (\<lambda>p. p \<noteq> new_id) (?others @ [new_id]) = ?others"
    using assms(2) by (auto simp: filter_id_conv)
  have d: "distinct (map (\<lambda>p. ordered (new_id, p)) ?others)"
    using distinct_ordered_Pair [OF assms(1)] .
  have i: "set (map pair_of ?t) \<inter> set (map (\<lambda>p. ordered (new_id, p)) ?others) = {}"
  proof (rule ccontr)
    assume "set (map pair_of ?t) \<inter> set (map (\<lambda>p. ordered (new_id, p)) ?others) \<noteq> {}"
    then obtain x where x: "x \<in> set (map pair_of ?t)"
        "x \<in> set (map (\<lambda>p. ordered (new_id, p)) ?others)" by blast
    from x(1) obtain r where r1: "r \<in> set ?t" "pair_of r = x" by auto
    from x(2) obtain p where "x = ordered (new_id, p)" by auto
    with r1 have r: "r \<in> set ?t" "pair_of r = ordered (new_id, p)" by simp_all
    then have "product_a r = new_id \<or> product_b r = new_id"
      by (auto simp: pair_of_def ordered_def split: if_splits)
    with assms(3) r(1) show False by (auto simp: list_all_iff)
  qed
  from create_loop_fresh [OF d i] obtain rows where rows:
    "create_loop new_id ?others ?t = (Inr (), ?t @ rows)"
    "map columns rows = map (\<lambda>p. (min new_id p, max new_id p, 0.5)) ?others"
    by blast
  have len: "length rows = length ?others" using arg_cong [OF rows(2), of length] by simp
  have lt: "list_all (\<lambda>r. product_a r < product_b r) rows"
  proof -
    have ne: "p \<noteq> new_id" if "p \<in> set ?others" for p using assms(2) that by auto
    have "\<forall>c \<in> set (map columns rows). fst c < fst (snd c)"
      unfolding rows(2) using ne by (fastforce simp: min_def max_def)
    then show ?thesis by (auto simp: list_all_iff columns_def)
  qed
  have "CreateProductView_post new_id db
          = (Inr 201, \<lparr>Product_objects = ?others @ [new_id], ProductSimilarity_objects = ?t @ rows\<rparr>)"
    using rows(1) f by (simp add: CreateProductView_post_def)
  with len rows(2) lt show ?thesis by blast
qed

theorem create_links_new_product_witness:
  "distinct [1, 2 :: int] \<and> (3 :: int) \<notin> set [1, 2]
   \<and> (\<exists>rows. CreateProductView_post 3
         \<lparr>Product_objects = [1, 2],
          ProductSimilarity_objects = [\<lparr>pk = Some 1, product_a = 1, product_b = 2, score = 0.6\<rparr>]\<rparr>
        = (Inr 201,
           \<lparr>Product_objects = [1, 2, 3],
            ProductSimilarity_objects =
              \<lparr>pk = Some 1, product_a = 1, product_b = 2, score = 0.6\<rparr> # rows\<rparr>)
        \<and> map columns rows = [(1, 3, 0.5), (2, 3, 0.5)])"
proof -
  let ?db = "\<lparr>Product_objects = [1, 2],
              ProductSimilarity_objects = [\<lparr>pk = Some 1, product_a = 1, product_b = 2, score = 0.6\<rparr>]\<rparr>"
  have d: "distinct (Product_objects ?db)" by simp
  have n: "3 \<notin> set (Product_objects ?db)" by simp
  have l: "list_all (\<lambda>r. product_a r \<noteq> 3 \<and> product_b r \<noteq> 3) (ProductSimilarity_objects ?db)"
    by simp
  from create_links_new_product [OF d n l] obtain rows where
    "CreateProductView_post 3 ?db
       = (Inr 201, \<lparr>Product_objects = Product_objects ?db @ [3],
                    ProductSimilarity_objects = ProductSimilarity_objects ?db @ rows\<rparr>)"
    "map columns rows = map (\<lambda>p. (min 3 p, max 3 p, 0.5)) (Product_objects ?db)"
    by blast
  then have "CreateProductView_post 3 ?db
       = (Inr 201, \<lparr>Product_objects = [1, 2, 3],
                    ProductSimilarity_objects =
                      \<lparr>pk = Some 1, product_a = 1, product_b = 2, score = 0.6\<rparr> # rows\<rparr>)
     \<and> map columns rows = [(1, 3, 0.5), (2, 3, 0.5)]"
    by simp
  then have "\<exists>rows. CreateProductView_post 3 ?db
       = (Inr 201, \<lparr>Product_objects = [1, 2, 3],
                    ProductSimilarity_objects =
                      \<lparr>pk = Some 1, product_a = 1, product_b = 2, score = 0.6\<rparr> # rows\<rparr>)
     \<and> map columns rows = [(1, 3, 0.5), (2, 3, 0.5)]"
    by (rule exI)
  then show ?thesis by simp
qed


section \<open>Recommendations\<close>

lemma sorted_desc_sort_key:
  "sorted_wrt (\<lambda>x y. score y \<le> score x) (sort_key (\<lambda>r. - score r) xs)"
proof -
  have "sorted (map (\<lambda>r. - score r) (sort_key (\<lambda>r. - score r) xs))"
    by (rule sorted_sort_key)
  then show ?thesis by (simp add: sorted_map)
qed

lemma sorted_desc_split:
  assumes "sorted_wrt (\<lambda>x y. score y \<le> score x) xs"
  shows "sorted_wrt (\<lambda>x y. score y \<le> score x) (take n xs)
       \<and> list_all (\<lambda>r. list_all (\<lambda>s. score r \<le> score s) (take n xs)) (drop n xs)"
proof -
  have "sorted_wrt (\<lambda>x y. score y \<le> score x) (take n xs @ drop n xs)"
    using assms by simp
  then show ?thesis
    unfolding sorted_wrt_append by (auto simp: list_all_iff)
qed

lemma objects_get_pk:
  assumes "distinct products" and "product \<in> set products"
  shows "objects_get (\<lambda>p. p = product) products = Inr product"
  using objects_get_found [of "\<lambda>p. p" products product "\<lambda>p. p = product"] assms by simp

text \<open>
  Claim C5: for a product of the catalog the view answers with the peers of the selected
  records, where the selected records are at most three of the records involving the
  product (all of them when there are fewer than three), in descending score order, no
  record left out has a higher score than a selected one, and each recommended item is
  the member of its record that is not the queried product. The stored records are in
  canonical order, so no record pairs a product with itself. Nothing is said about the
  order of records of equal score, which the database is free to choose. At the scores
  0.9, 0.3, 0.7, 0.5 the peers come in the order 0.9, 0.7, 0.5.
\<close>

theorem recommend_top_three:
  assumes "distinct (Product_objects db)"
    and "product \<in> set (Product_objects db)"
    and "canonical (ProductSimilarity_objects db)"
  shows "\<exists>selected rest.
           ProductDetailView_get False product db
             = Inr (Product_and_recommendations product
                 (map (\<lambda>sim. if product_a sim = product then product_b sim else product_a sim)
                    selected))
         \<and> mset (selected @ rest)
             = mset (filter (\<lambda>r. product_a r = product \<or> product_b r = product)
                       (ProductSimilarity_objects db))
         \<and> length selected
             = min 3 (length (filter (\<lambda>r. product_a r = product \<or> product_b r = product)
                         (ProductSimilarity_objects db)))
         \<and> sorted_wrt (\<lambda>x y. score y \<le> score x) selected
         \<and> list_all (\<lambda>r. list_all (\<lambda>s. score r \<le> score s) selected) rest
         \<and> list_all (\<lambda>sim. (product_a sim = product \<or> product_b sim = product)
               \<and> (if product_a sim = product then product_b sim else product_a sim) \<noteq> product)
             selected"
proof -
  let ?inv = "filter (\<lambda>r. product_a r = product \<or> product_b r = product)
                (ProductSimilarity_objects db)"
  let ?sorted = "sort_key (\<lambda>r. - score r) ?inv"
  let ?sel = "take 3 ?sorted"
  let ?rest = "drop 3 ?sorted"
  have sel: "similarity_objs product (ProductSimilarity_objects db) = ?sel"
    by (simp add: similarity_objs_def)
  have g: "get_object_or_404 (\<lambda>p. p = product) (Product_objects db) = Inr product"
    using objects_get_pk [OF assms(1,2)] by (simp add: get_object_or_404_def)
  have resp: "ProductDetailView_get False product db
             = Inr (Product_and_recommendations product
                 (map (\<lambda>sim. if product_a sim = product then product_b sim else product_a sim)
                    ?sel))"
    using g sel by (simp add: ProductDetailView_get_def)
  have perm: "mset (?sel @ ?rest) = mset ?inv" by simp
  have len: "length ?sel = min 3 (length ?inv)" by simp
  have srt: "sorted_wrt (\<lambda>x y. score y \<le> score x) ?sel
           \<and> list_all (\<lambda>r. list_all (\<lambda>s. score r \<le> score s) ?sel) ?rest"
    using sorted_desc_split [OF sorted_desc_sort_key] .
  have sub: "set ?sel \<subseteq> set ?inv"
    using set_take_subset [of 3 ?sorted] by simp
  have peer: "list_all (\<lambda>sim. (product_a sim = product \<or> product_b sim = product)
               \<and> (if product_a sim = product then product_b sim else product_a sim) \<noteq> product)
             ?sel"
  proof -
    have "(product_a sim = product \<or> product_b sim = product)
          \<and> (if product_a sim = product then product_b sim else product_a sim) \<noteq> product"
      if "sim \<in> set ?sel" for sim
    proof -
      from that sub have i: "sim \<in> set ?inv" by blast
      then have "sim \<in> set (ProductSimilarity_objects db)" by simp
      with assms(3) have "product_a sim < product_b sim"
        by (simp add: canonical_def list_all_iff)
      with i show ?thesis by auto
    qed
    then show ?thesis unfolding list_all_iff by blast
  qed
  show ?thesis
    apply (rule exI [of _ ?sel])
    apply (rule exI [of _ ?rest])
    using resp perm len srt peer by blast
qed

theorem recommend_top_three_witness:
  "distinct [1, 2, 3, 4, 5 :: int]
   \<and> canonical
       [\<lparr>pk = Some 1, product_a = 1, product_b = 2, score = 0.9\<rparr>,
        \<lparr>pk = Some 2, product_a = 1, product_b = 3, score = 0.3\<rparr>,
        \<lparr>pk = Some 3, product_a = 1, product_b = 4, score = 0.7\<rparr>,
        \<lparr>pk = Some 4, product_a = 1, product_b = 5, score = 0.5\<rparr>]
   \<and> ProductDetailView_get False 1
       \<lparr>Product_objects = [1, 2, 3, 4, 5],
        ProductSimilarity_objects =
       [\<lparr>pk = Some 1, product_a = 1, product_b = 2, score = 0.9\<rparr>,
        \<lparr>pk = Some 2, product_a = 1, product_b = 3, score = 0.3\<rparr>,
        \<lparr>pk = Some 3, product_a = 1, product_b = 4, score = 0.7\<rparr>,
        \<lparr>pk = Some 4, product_a = 1, product_b = 5, score = 0.5\<rparr>]\<rparr>
     = Inr (Product_and_recommendations 1 [2, 4, 5])
   \<and> (\<exists>selected rest.
           ProductDetailView_get False 1
             \<lparr>Product_objects = [1, 2, 3, 4, 5],
        ProductSimilarity_objects =
       [\<lparr>pk = Some 1, product_a = 1, product_b = 2, score = 0.9\<rparr>,
        \<lparr>pk = Some 2, product_a = 1, product_b = 3, score = 0.3\<rparr>,
        \<lparr>pk = Some 3, product_a = 1, product_b = 4, score = 0.7\<rparr>,
        \<lparr>pk = Some 4, product_a = 1, product_b = 5, score = 0.5\<rparr>]\<rparr>
             = Inr (Product_and_recommendations 1
                 (map (\<lambda>sim. if product_a sim = 1 then product_b sim else product_a sim)
                    selected))
         \<and> mset (selected @ rest)
             = mset (filter (\<lambda>r. product_a r = 1 \<or> product_b r = 1)
                       (ProductSimilarity_objects
             \<lparr>Product_objects = [1, 2, 3, 4, 5],
        ProductSimilarity_objects =
       [\<lparr>pk = Some 1, product_a = 1, product_b = 2, score = 0.9\<rparr>,
        \<lparr>pk = Some 2, product_a = 1, product_b = 3, score = 0.3\<rparr>,
        \<lparr>pk = Some 3, product_a = 1, product_b = 4, score = 0.7\<rparr>,
        \<lparr>pk = Some 4, product_a = 1, product_b = 5, score = 0.5\<rparr>]\<rparr>))
         \<and> length selected
             = min 3 (length (filter (\<lambda>r. product_a r = 1 \<or> product_b r = 1)
                         (ProductSimilarity_objects
             \<lparr>Product_objects = [1, 2, 3, 4, 5],
        ProductSimilarity_objects =
       [\<lparr>pk = Some 1, product_a = 1, product_b = 2, score = 0.9\<rparr>,
        \<lparr>pk = Some 2, product_a = 1, product_b = 3, score = 0.3\<rparr>,
        \<lparr>pk = Some 3, product_a = 1, product_b = 4, score = 0.7\<rparr>,
        \<lparr>pk = Some 4, product_a = 1, product_b = 5, score = 0.5\<rparr>]\<rparr>)))
         \<and> sorted_wrt (\<lambda>x y. score y \<le> score x) selected
         \<and> list_all (\<lambda>r. list_all (\<lambda>s. score r \<le> score s) selected) rest
         \<and> list_all (\<lambda>sim. (product_a sim = 1 \<or> product_b sim = 1)
               \<and> (if product_a sim = 1 then product_b sim else product_a sim) \<noteq> 1)
             selected)"
proof -
  let ?db = "\<lparr>Product_objects = [1, 2, 3, 4, 5],
        ProductSimilarity_objects =
       [\<lparr>pk = Some 1, product_a = 1, product_b = 2, score = 0.9\<rparr>,
        \<lparr>pk = Some 2, product_a = 1, product_b = 3, score = 0.3\<rparr>,
        \<lparr>pk = Some 3, product_a = 1, product_b = 4, score = 0.7\<rparr>,
        \<lparr>pk = Some 4, product_a = 1, product_b = 5, score = 0.5\<rparr>]\<rparr>"
  have d: "distinct (Product_objects ?db)" by simp
  have m: "1 \<in> set (Product_objects ?db)" by simp
  have c: "canonical (ProductSimilarity_objects ?db)" by (simp add: canonical_def)
  have d0: "distinct [1, 2, 3, 4, 5 :: int]" by simp
  have c0: "canonical
       [\<lparr>pk = Some 1, product_a = 1, product_b = 2, score = 0.9\<rparr>,
        \<lparr>pk = Some 2, product_a = 1, product_b = 3, score = 0.3\<rparr>,
        \<lparr>pk = Some 3, product_a = 1, product_b = 4, score = 0.7\<rparr>,
        \<lparr>pk = Some 4, product_a = 1, product_b = 5, score = 0.5\<rparr>]"
    by (simp add: canonical_def)
  have e: "ProductDetailView_get False 1 ?db = Inr (Product_and_recommendations 1 [2, 4, 5])"
    by (simp add: ProductDetailView_get_def get_object_or_404_def objects_get_def
          similarity_objs_def)
  have t: "(\<exists>selected rest.
           ProductDetailView_get False 1
             ?db
             = Inr (Product_and_recommendations 1
                 (map (\<lambda>sim. if product_a sim = 1 then product_b sim else product_a sim)
                    selected))
         \<and> mset (selected @ rest)
             = mset (filter (\<lambda>r. product_a r = 1 \<or> product_b r = 1)
                       (ProductSimilarity_objects
             ?db))
         \<and> length selected
             = min 3 (length (filter (\<lambda>r. product_a r = 1 \<or> product_b r = 1)
                         (ProductSimilarity_objects
             ?db)))
         \<and> sorted_wrt (\<lambda>x y. score y \<le> score x) selected
         \<and> list_all (\<lambda>r. list_all (\<lambda>s. score r \<le> score s) selected) rest
         \<and> list_all (\<lambda>sim. (product_a sim = 1 \<or> product_b sim = 1)
               \<and> (if product_a sim = 1 then product_b sim else product_a sim) \<noteq> 1)
             selected)"
    by (rule recommend_top_three [OF d m c])
  show ?thesis by (intro conjI) (fact d0, fact c0, fact e, fact t)
qed


section \<open>Feedback\<close>

lemma map_pair_of_adjust_set: "map pair_of (adjust_set f cur S t) = map pair_of t"
  by (simp add: adjust_set_def pair_of_def comp_def)

lemma map_pk_adjust_set: "map pk (adjust_set f cur S t) = map pk t"
  by (simp add: adjust_set_def comp_def)

lemma length_adjust_set: "length (adjust_set f cur S t) = length t"
  by (simp add: adjust_set_def)

lemma wf_table_alt:
  "wf_table t = (distinct (map pk t) \<and> None \<notin> set (map pk t) \<and> distinct (map pair_of t))"
proof -
  have "list_all (\<lambda>r. pk r \<noteq> None) t = (None \<notin> set (map pk t))"
    by (induction t) auto
  then show ?thesis by (simp add: wf_table_def)
qed

lemma wf_adjust_set: "wf_table t \<Longrightarrow> wf_table (adjust_set f cur S t)"
  unfolding wf_table_alt by (simp add: map_pair_of_adjust_set map_pk_adjust_set)

lemma get_similarity_object_found:
  assumes "wf_table t" and "r \<in> set t" and "pair_of r = ordered (cur, p)"
  shows "get_similarity_object cur p t = Inr r"
proof -
  have d: "distinct (map pair_of t)" using assms(1) by (simp add: wf_table_def)
  show ?thesis
  proof (cases "cur < p")
    case True
    then have "\<And>x. (product_a x = cur \<and> product_b x = p) = (pair_of x = pair_of r)"
      using assms(3) by (auto simp: pair_of_def ordered_def)
    from objects_get_found [OF d assms(2) this] True show ?thesis
      by (simp add: get_similarity_object_def get_object_or_404_def)
  next
    case False
    then have "\<And>x. (product_a x = p \<and> product_b x = cur) = (pair_of x = pair_of r)"
      using assms(3) by (auto simp: pair_of_def ordered_def)
    from objects_get_found [OF d assms(2) this] False show ?thesis
      by (simp add: get_similarity_object_def get_object_or_404_def)
  qed
qed

lemma get_similarity_object_missing:
  assumes "ordered (cur, p) \<notin> set (map pair_of t)"
  shows "get_similarity_object cur p t = Inl Http404"
proof (cases "cur < p")
  case True
  then have "\<forall>x\<in>set t. \<not> (product_a x = cur \<and> product_b x = p)"
    using assms by (auto simp: pair_of_def ordered_def image_iff)
  from objects_get_missing [OF this] True show ?thesis
    by (simp add: get_similarity_object_def get_object_or_404_def)
next
  case False
  then have "\<forall>x\<in>set t. \<not> (product_a x = p \<and> product_b x = cur)"
    using assms by (auto simp: pair_of_def ordered_def image_iff)
  from objects_get_missing [OF this] False show ?thesis
    by (simp add: get_similarity_object_def get_object_or_404_def)
qed

lemma save_adjust:
  assumes wf: "wf_table t" and r: "r \<in> set t" and p: "pair_of r = ordered (cur, p)"
  shows "ProductSimilarity_save False (r\<lparr>score := f (score r)\<rparr>) t
           = (Inr (r\<lparr>score := f (score r)\<rparr>), adjust_set f cur {p} t)"
proof -
  have le: "product_a r \<le> product_b r"
    using p by (auto simp: pair_of_def ordered_def split: if_splits)
  have "set_score r (f (score r)) t = adjust_set f cur {p} t"
    unfolding set_score_def adjust_set_def
  proof (rule map_cong [OF refl])
    fix x assume x: "x \<in> set t"
    have "(x = r) = (pair_of x = ordered (cur, p))"
      using wf_pair_eq [OF wf r x] p by auto
    then show "(if x = r then r\<lparr>score := f (score r)\<rparr> else x)
             = (if pair_of x \<in> (\<lambda>p. ordered (cur, p)) ` {p} then x\<lparr>score := f (score x)\<rparr> else x)"
      by auto
  qed
  with save_fetched [OF wf r le, of "f (score r)"] show ?thesis by simp
qed

lemma present_adjust_set:
  "(ordered (cur, q) \<in> set (map pair_of (adjust_set f c S t))) = (ordered (cur, q) \<in> set (map pair_of t))"
  by (simp only: map_pair_of_adjust_set)

lemma decrease_step:
  assumes wf: "wf_table t" and pr: "ordered (cur, p) \<in> set (map pair_of t)"
  shows "decrease_loop cur (p # rest) t
           = decrease_loop cur rest (adjust_set (\<lambda>s. max (s - 0.05) 0.0) cur {p} t)"
proof -
  from pr obtain r where r: "r \<in> set t" "pair_of r = ordered (cur, p)" by auto
  have g: "get_similarity_object cur p t = Inr r"
    using get_similarity_object_found [OF wf r] .
  have s: "ProductSimilarity_save False (r\<lparr>score := max (score r - 0.05) 0.0\<rparr>) t
           = (Inr (r\<lparr>score := max (score r - 0.05) 0.0\<rparr>),
              adjust_set (\<lambda>s. max (s - 0.05) 0.0) cur {p} t)"
    using save_adjust [OF wf r, of "\<lambda>s. max (s - 0.05) 0.0"] .
  show ?thesis unfolding decrease_loop.simps g using s by simp
qed

lemma decrease_loop_all:
  assumes "wf_table t" and "\<forall>p\<in>set others. ordered (cur, p) \<in> set (map pair_of t)"
  shows "decrease_loop cur others t
           = (Inr (), fold (\<lambda>p. adjust_set (\<lambda>s. max (s - 0.05) 0.0) cur {p}) others t)"
  using assms
proof (induction others arbitrary: t)
  case Nil
  then show ?case by simp
next
  case (Cons p others)
  let ?t = "adjust_set (\<lambda>s. max (s - 0.05) 0.0) cur {p} t"
  have st: "decrease_loop cur (p # others) t = decrease_loop cur others ?t"
    using decrease_step [OF Cons.prems(1)] Cons.prems(2) by simp
  have wf: "wf_table ?t" using wf_adjust_set [OF Cons.prems(1)] .
  have pr: "\<forall>q\<in>set others. ordered (cur, q) \<in> set (map pair_of ?t)"
    using Cons.prems(2) by (simp only: map_pair_of_adjust_set) simp
  show ?case using Cons.IH [OF wf pr] st by simp
qed

lemma decrease_loop_missing:
  assumes "wf_table t" and "\<forall>q\<in>set before. ordered (cur, q) \<in> set (map pair_of t)"
    and "ordered (cur, p) \<notin> set (map pair_of t)"
  shows "decrease_loop cur (before @ p # later) t
           = (Inl Http404, fold (\<lambda>p. adjust_set (\<lambda>s. max (s - 0.05) 0.0) cur {p}) before t)"
  using assms
proof (induction before arbitrary: t)
  case Nil
  then show ?case by (simp add: get_similarity_object_missing)
next
  case (Cons q before)
  let ?t = "adjust_set (\<lambda>s. max (s - 0.05) 0.0) cur {q} t"
  have st: "decrease_loop cur ((q # before) @ p # later) t
              = decrease_loop cur (before @ p # later) ?t"
    using decrease_step [OF Cons.prems(1), of cur q] Cons.prems(2) by simp
  have wf: "wf_table ?t" using wf_adjust_set [OF Cons.prems(1)] .
  have pr: "\<forall>q\<in>set before. ordered (cur, q) \<in> set (map pair_of ?t)"
    using Cons.prems(2) by (simp only: map_pair_of_adjust_set) simp
  have ms: "ordered (cur, p) \<notin> set (map pair_of ?t)"
    using Cons.prems(3) by (simp add: map_pair_of_adjust_set)
  show ?case using Cons.IH [OF wf pr ms] st by simp
qed

lemma ordered_Pair_inj: "ordered (cur, p) = ordered (cur, q) \<Longrightarrow> p = q"
  by (auto simp: ordered_def split: if_splits)

lemma adjust_set_insert:
  assumes "p \<notin> S"
  shows "adjust_set f cur S (adjust_set f cur {p} t) = adjust_set f cur (insert p S) t"
  unfolding adjust_set_def map_map
proof (rule map_cong [OF refl])
  fix r assume "r \<in> set t"
  have po: "pair_of (r\<lparr>score := f (score r)\<rparr>) = pair_of r" by (simp add: pair_of_def)
  show "((\<lambda>r. if pair_of r \<in> (\<lambda>p. ordered (cur, p)) ` S then r\<lparr>score := f (score r)\<rparr> else r) \<circ>
         (\<lambda>r. if pair_of r \<in> (\<lambda>p. ordered (cur, p)) ` {p} then r\<lparr>score := f (score r)\<rparr> else r)) r
      = (if pair_of r \<in> (\<lambda>p. ordered (cur, p)) ` insert p S then r\<lparr>score := f (score r)\<rparr> else r)"
  proof (cases "pair_of r = ordered (cur, p)")
    case True
    then have "pair_of r \<notin> (\<lambda>p. ordered (cur, p)) ` S"
      using assms ordered_Pair_inj by fastforce
    with True po show ?thesis by simp
  next
    case False
    then show ?thesis by simp
  qed
qed

lemma adjust_set_empty: "adjust_set f cur {} t = t"
  by (simp add: adjust_set_def)

lemma fold_adjust_set:
  "distinct others \<Longrightarrow> fold (\<lambda>p. adjust_set f cur {p}) others t = adjust_set f cur (set others) t"
proof (induction others arbitrary: t)
  case Nil
  then show ?case by (simp add: adjust_set_empty)
next
  case (Cons p others)
  then have "fold (\<lambda>p. adjust_set f cur {p}) (p # others) t
               = adjust_set f cur (set others) (adjust_set f cur {p} t)"
    by simp
  also have "\<dots> = adjust_set f cur (insert p (set others)) t"
    using adjust_set_insert [of p "set others"] Cons.prems by simp
  finally show ?case by simp
qed


lemma objects_get_product:
  "distinct products \<Longrightarrow> p \<in> set products \<Longrightarrow> objects_get (\<lambda>x. x = p) products = Inr p"
  using objects_get_found [of "\<lambda>x. x" products p "\<lambda>x. x = p"] by simp

lemma post_clicked_missing:
  assumes "distinct (Product_objects db)"
    and "cur_id \<in> set (Product_objects db)" and "clicked_id \<in> set (Product_objects db)"
    and "ordered (cur_id, clicked_id) \<notin> set (map pair_of (ProductSimilarity_objects db))"
  shows "UpdateSimilarityView_post cur_id clicked_id other_ids db = (Inl Http404, db)"
  using objects_get_product [OF assms(1,2)] objects_get_product [OF assms(1,3)]
    get_similarity_object_missing [OF assms(4)]
  by (simp add: UpdateSimilarityView_post_def)

lemma post_clicked_found:
  assumes wf: "wf_table (ProductSimilarity_objects db)" and d: "distinct (Product_objects db)"
    and "cur_id \<in> set (Product_objects db)" and "clicked_id \<in> set (Product_objects db)"
    and pr: "ordered (cur_id, clicked_id) \<in> set (map pair_of (ProductSimilarity_objects db))"
  shows "UpdateSimilarityView_post cur_id clicked_id other_ids db =
     (case decrease_loop cur_id (filter (\<lambda>p. p \<in> set other_ids) (Product_objects db))
             (adjust_set (\<lambda>s. min (s + 0.1) 1.0) cur_id {clicked_id} (ProductSimilarity_objects db)) of
        (Inl e, t'') \<Rightarrow> (Inl e, db\<lparr>ProductSimilarity_objects := t''\<rparr>)
      | (Inr u, t'') \<Rightarrow> (Inr 204, db\<lparr>ProductSimilarity_objects := t''\<rparr>))"
proof -
  from pr obtain r where r: "r \<in> set (ProductSimilarity_objects db)"
    "pair_of r = ordered (cur_id, clicked_id)" by auto
  have g: "get_similarity_object cur_id clicked_id (ProductSimilarity_objects db) = Inr r"
    using get_similarity_object_found [OF wf r] .
  have s: "ProductSimilarity_save False (r\<lparr>score := min (score r + 0.1) 1.0\<rparr>) (ProductSimilarity_objects db)
           = (Inr (r\<lparr>score := min (score r + 0.1) 1.0\<rparr>),
              adjust_set (\<lambda>s. min (s + 0.1) 1.0) cur_id {clicked_id} (ProductSimilarity_objects db))"
    using save_adjust [OF wf r, of "\<lambda>s. min (s + 0.1) 1.0"] .
  show ?thesis
    using s g objects_get_product [OF d assms(3)] objects_get_product [OF d assms(4)]
    by (simp add: UpdateSimilarityView_post_def)
qed

lemma post_success:
  assumes wf: "wf_table (ProductSimilarity_objects db)" and d: "distinct (Product_objects db)"
    and c: "cur_id \<in> set (Product_objects db)" and k: "clicked_id \<in> set (Product_objects db)"
    and pr: "ordered (cur_id, clicked_id) \<in> set (map pair_of (ProductSimilarity_objects db))"
    and al: "\<forall>p \<in> set other_ids \<inter> set (Product_objects db).
               ordered (cur_id, p) \<in> set (map pair_of (ProductSimilarity_objects db))"
  shows "UpdateSimilarityView_post cur_id clicked_id other_ids db =
     (Inr 204, db\<lparr>ProductSimilarity_objects :=
        adjust_set (\<lambda>s. max (s - 0.05) 0.0) cur_id (set other_ids \<inter> set (Product_objects db))
          (adjust_set (\<lambda>s. min (s + 0.1) 1.0) cur_id {clicked_id} (ProductSimilarity_objects db))\<rparr>)"
proof -
  let ?t = "adjust_set (\<lambda>s. min (s + 0.1) 1.0) cur_id {clicked_id} (ProductSimilarity_objects db)"
  let ?others = "filter (\<lambda>p. p \<in> set other_ids) (Product_objects db)"
  have wf1: "wf_table ?t" using wf_adjust_set [OF wf] .
  have al1: "\<forall>p\<in>set ?others. ordered (cur_id, p) \<in> set (map pair_of ?t)"
    using al by (simp add: map_pair_of_adjust_set)
  have so: "set ?others = set other_ids \<inter> set (Product_objects db)" by auto
  have "decrease_loop cur_id ?others ?t
          = (Inr (), adjust_set (\<lambda>s. max (s - 0.05) 0.0) cur_id (set ?others) ?t)"
    using decrease_loop_all [OF wf1 al1] fold_adjust_set [of ?others] d by simp
  then show ?thesis
    unfolding post_clicked_found [OF wf d c k pr] so by simp
qed

lemma post_missing:
  assumes wf: "wf_table (ProductSimilarity_objects db)" and d: "distinct (Product_objects db)"
    and c: "cur_id \<in> set (Product_objects db)" and k: "clicked_id \<in> set (Product_objects db)"
    and pr: "ordered (cur_id, clicked_id) \<in> set (map pair_of (ProductSimilarity_objects db))"
    and sp: "filter (\<lambda>p. p \<in> set other_ids) (Product_objects db) = before @ p # later"
    and al: "\<forall>q \<in> set before. ordered (cur_id, q) \<in> set (map pair_of (ProductSimilarity_objects db))"
    and ms: "ordered (cur_id, p) \<notin> set (map pair_of (ProductSimilarity_objects db))"
  shows "UpdateSimilarityView_post cur_id clicked_id other_ids db =
     (Inl Http404, db\<lparr>ProductSimilarity_objects :=
        adjust_set (\<lambda>s. max (s - 0.05) 0.0) cur_id (set before)
          (adjust_set (\<lambda>s. min (s + 0.1) 1.0) cur_id {clicked_id} (ProductSimilarity_objects db))\<rparr>)"
proof -
  let ?t = "adjust_set (\<lambda>s. min (s + 0.1) 1.0) cur_id {clicked_id} (ProductSimilarity_objects db)"
  have wf1: "wf_table ?t" using wf_adjust_set [OF wf] .
  have al1: "\<forall>q\<in>set before. ordered (cur_id, q) \<in> set (map pair_of ?t)"
    using al by (simp add: map_pair_of_adjust_set)
  have ms1: "ordered (cur_id, p) \<notin> set (map pair_of ?t)"
    using ms by (simp add: map_pair_of_adjust_set)
  have "distinct (before @ p # later)" using d sp [symmetric] by simp
  then have db: "distinct before" by simp
  have "decrease_loop cur_id (before @ p # later) ?t
          = (Inl Http404, adjust_set (\<lambda>s. max (s - 0.05) 0.0) cur_id (set before) ?t)"
    using decrease_loop_missing [OF wf1 al1 ms1] fold_adjust_set [OF db] by simp
  then show ?thesis
    unfolding post_clicked_found [OF wf d c k pr] sp by simp
qed




text \<open>
  C10. \<^verbatim>\<open>Product.objects.filter(pk__in=other_ids)\<close> reads the id list as a set of existing
  products. On a table that meets its constraints, with both products existing and a record
  present for the clicked pair and for the pair of every existing product named in
  \<open>other_ids\<close>, the call answers 204 and the stored table is the one where the clicked pair
  went through the increment and then the pair of each product of
  \<open>set other_ids \<inter> set products\<close> went through the decrement once: an id listed several
  times gives one decrement, an id of no product gives no decrement and no error. A second
  list \<open>ids'\<close> naming the same existing products gives the same outcome.
\<close>

theorem feedback_other_ids_as_set:
  assumes "wf_table (ProductSimilarity_objects db)" and "distinct (Product_objects db)"
    and "cur_id \<in> set (Product_objects db)" and "clicked_id \<in> set (Product_objects db)"
    and "ordered (cur_id, clicked_id) \<in> set (map pair_of (ProductSimilarity_objects db))"
    and "\<forall>p \<in> set other_ids \<inter> set (Product_objects db).
           ordered (cur_id, p) \<in> set (map pair_of (ProductSimilarity_objects db))"
    and "set ids' \<inter> set (Product_objects db) = set other_ids \<inter> set (Product_objects db)"
  shows "UpdateSimilarityView_post cur_id clicked_id other_ids db =
           (Inr 204, db\<lparr>ProductSimilarity_objects :=
              adjust_set (\<lambda>s. max (s - 0.05) 0.0) cur_id (set other_ids \<inter> set (Product_objects db))
                (adjust_set (\<lambda>s. min (s + 0.1) 1.0) cur_id {clicked_id}
                   (ProductSimilarity_objects db))\<rparr>)
       \<and> UpdateSimilarityView_post cur_id clicked_id ids' db
           = UpdateSimilarityView_post cur_id clicked_id other_ids db"
proof -
  have "\<And>p. p \<in> set (Product_objects db) \<Longrightarrow> (p \<in> set ids') = (p \<in> set other_ids)"
    using assms(7) by blast
  then have f: "filter (\<lambda>p. p \<in> set ids') (Product_objects db)
              = filter (\<lambda>p. p \<in> set other_ids) (Product_objects db)"
    by (intro filter_cong refl)
  have "UpdateSimilarityView_post cur_id clicked_id ids' db
           = UpdateSimilarityView_post cur_id clicked_id other_ids db"
    by (simp only: UpdateSimilarityView_post_def f)
  with post_success [OF assms(1-6)] show ?thesis by simp
qed

theorem feedback_other_ids_as_set_witness:
  "UpdateSimilarityView_post 1 2 [3, 3, 99]
     \<lparr>Product_objects = [1, 2, 3],
      ProductSimilarity_objects =
        [\<lparr>pk = Some 1, product_a = 1, product_b = 2, score = 0.5\<rparr>,
         \<lparr>pk = Some 2, product_a = 1, product_b = 3, score = 0.5\<rparr>,
         \<lparr>pk = Some 3, product_a = 2, product_b = 3, score = 0.5\<rparr>]\<rparr>
   = (Inr 204,
      \<lparr>Product_objects = [1, 2, 3],
       ProductSimilarity_objects =
         [\<lparr>pk = Some 1, product_a = 1, product_b = 2, score = 0.6\<rparr>,
          \<lparr>pk = Some 2, product_a = 1, product_b = 3, score = 0.45\<rparr>,
          \<lparr>pk = Some 3, product_a = 2, product_b = 3, score = 0.5\<rparr>]\<rparr>)
   \<and> UpdateSimilarityView_post 1 2 [3]
     \<lparr>Product_objects = [1, 2, 3],
      ProductSimilarity_objects =
        [\<lparr>pk = Some 1, product_a = 1, product_b = 2, score = 0.5\<rparr>,
         \<lparr>pk = Some 2, product_a = 1, product_b = 3, score = 0.5\<rparr>,
         \<lparr>pk = Some 3, product_a = 2, product_b = 3, score = 0.5\<rparr>]\<rparr>
   = UpdateSimilarityView_post 1 2 [3, 3, 99]
     \<lparr>Product_objects = [1, 2, 3],
      ProductSimilarity_objects =
        [\<lparr>pk = Some 1, product_a = 1, product_b = 2, score = 0.5\<rparr>,
         \<lparr>pk = Some 2, product_a = 1, product_b = 3, score = 0.5\<rparr>,
         \<lparr>pk = Some 3, product_a = 2, product_b = 3, score = 0.5\<rparr>]\<rparr>"
proof -
  let ?db = "\<lparr>Product_objects = [1, 2, 3],
      ProductSimilarity_objects =
        [\<lparr>pk = Some 1, product_a = 1, product_b = 2, score = 0.5\<rparr>,
         \<lparr>pk = Some 2, product_a = 1, product_b = 3, score = 0.5\<rparr>,
         \<lparr>pk = Some 3, product_a = 2, product_b = 3, score = 0.5\<rparr>]\<rparr>"
  have wf: "wf_table (ProductSimilarity_objects ?db)" by (simp add: wf_table_def pair_of_def)
  have d: "distinct (Product_objects ?db)" by simp
  have c: "1 \<in> set (Product_objects ?db)" by simp
  have k: "2 \<in> set (Product_objects ?db)" by simp
  have pr: "ordered (1, 2) \<in> set (map pair_of (ProductSimilarity_objects ?db))"
    by (simp add: pair_of_def ordered_def)
  have al: "\<forall>p \<in> set [3, 3, 99] \<inter> set (Product_objects ?db).
           ordered (1, p) \<in> set (map pair_of (ProductSimilarity_objects ?db))"
    by (simp add: pair_of_def ordered_def)
  have e: "set [3] \<inter> set (Product_objects ?db) = set [3, 3, 99] \<inter> set (Product_objects ?db)"
    by simp
  have s: "set [3, 3, 99] \<inter> set (Product_objects ?db) = {3}" by simp
  from feedback_other_ids_as_set [OF wf d c k pr al e]
  show ?thesis unfolding s by (simp add: adjust_set_def pair_of_def ordered_def)
qed




text \<open>
  C4, as stated: the view opens no transaction, so every \<^verbatim>\<open>save\<close> commits by itself
  (Django's autocommit). With no record for the pair of the unclicked product 3, the call
  ends with the 404 error after the increment of the clicked pair was stored: 0.5 became
  0.6 and stays.
\<close>

theorem feedback_partial_counterexample:
  "UpdateSimilarityView_post 1 2 [3]
     \<lparr>Product_objects = [1, 2, 3],
      ProductSimilarity_objects = [\<lparr>pk = Some 1, product_a = 1, product_b = 2, score = 0.5\<rparr>]\<rparr>
   = (Inl Http404,
      \<lparr>Product_objects = [1, 2, 3],
       ProductSimilarity_objects = [\<lparr>pk = Some 1, product_a = 1, product_b = 2, score = 0.6\<rparr>]\<rparr>)"
  by (simp add: UpdateSimilarityView_post_def get_similarity_object_def get_object_or_404_def
      eval_defs)

text \<open>
  C4, amended: each adjustment looks up the record of its pair and the call ends with the
  404 error at the first pair that has none; no record is created or removed, and the keys
  and products of every record stay. The call is not atomic: when the clicked pair has no
  record nothing is modified, and when the first missing record is that of an unclicked
  product \<open>p\<close>, the increment of the clicked pair and the decrements for the unclicked
  products \<open>before\<close> it (in the order of the product table) are stored and stay.
\<close>

theorem feedback_not_atomic:
  assumes "wf_table (ProductSimilarity_objects db)" and "distinct (Product_objects db)"
    and "cur_id \<in> set (Product_objects db)" and "clicked_id \<in> set (Product_objects db)"
  shows "(ordered (cur_id, clicked_id) \<notin> set (map pair_of (ProductSimilarity_objects db)) \<longrightarrow>
            UpdateSimilarityView_post cur_id clicked_id other_ids db = (Inl Http404, db))
       \<and> (ordered (cur_id, clicked_id) \<in> set (map pair_of (ProductSimilarity_objects db))
          \<and> filter (\<lambda>p. p \<in> set other_ids) (Product_objects db) = before @ p # later
          \<and> (\<forall>q \<in> set before.
                ordered (cur_id, q) \<in> set (map pair_of (ProductSimilarity_objects db)))
          \<and> ordered (cur_id, p) \<notin> set (map pair_of (ProductSimilarity_objects db)) \<longrightarrow>
            UpdateSimilarityView_post cur_id clicked_id other_ids db =
              (Inl Http404, db\<lparr>ProductSimilarity_objects :=
                 adjust_set (\<lambda>s. max (s - 0.05) 0.0) cur_id (set before)
                   (adjust_set (\<lambda>s. min (s + 0.1) 1.0) cur_id {clicked_id}
                      (ProductSimilarity_objects db))\<rparr>))
       \<and> map pk (ProductSimilarity_objects
                   (snd (UpdateSimilarityView_post cur_id clicked_id other_ids db)))
           = map pk (ProductSimilarity_objects db)
       \<and> map pair_of (ProductSimilarity_objects
                   (snd (UpdateSimilarityView_post cur_id clicked_id other_ids db)))
           = map pair_of (ProductSimilarity_objects db)"
proof -
  let ?t = "ProductSimilarity_objects db"
  let ?post = "UpdateSimilarityView_post cur_id clicked_id other_ids db"
  let ?others = "filter (\<lambda>p. p \<in> set other_ids) (Product_objects db)"
  have a: "?post = (Inl Http404, db)" if "ordered (cur_id, clicked_id) \<notin> set (map pair_of ?t)"
    using post_clicked_missing [OF assms(2-4) that] .
  have b: "?post = (Inl Http404, db\<lparr>ProductSimilarity_objects :=
                 adjust_set (\<lambda>s. max (s - 0.05) 0.0) cur_id (set before)
                   (adjust_set (\<lambda>s. min (s + 0.1) 1.0) cur_id {clicked_id} ?t)\<rparr>)"
    if "ordered (cur_id, clicked_id) \<in> set (map pair_of ?t)"
      and "?others = before @ p # later"
      and "\<forall>q \<in> set before. ordered (cur_id, q) \<in> set (map pair_of ?t)"
      and "ordered (cur_id, p) \<notin> set (map pair_of ?t)"
    for before p later
    using post_missing [OF assms that] .
  have c: "map pk (ProductSimilarity_objects (snd ?post)) = map pk ?t
         \<and> map pair_of (ProductSimilarity_objects (snd ?post)) = map pair_of ?t"
  proof (cases "ordered (cur_id, clicked_id) \<in> set (map pair_of ?t)")
    case False
    from a [OF this] show ?thesis by simp
  next
    case True
    show ?thesis
    proof (cases "\<exists>q \<in> set ?others. ordered (cur_id, q) \<notin> set (map pair_of ?t)")
      case True
      from split_list_first_prop [OF this] obtain ys x zs where
        sp: "?others = ys @ x # zs" and x: "ordered (cur_id, x) \<notin> set (map pair_of ?t)"
        and ys: "\<forall>y \<in> set ys. \<not> ordered (cur_id, y) \<notin> set (map pair_of ?t)"
        by blast
      from ys have "\<forall>y \<in> set ys. ordered (cur_id, y) \<in> set (map pair_of ?t)" by simp
      from b [OF \<open>ordered (cur_id, clicked_id) \<in> set (map pair_of ?t)\<close> sp this x]
      show ?thesis by (simp add: map_pk_adjust_set map_pair_of_adjust_set)
    next
      case False
      then have "\<forall>p \<in> set other_ids \<inter> set (Product_objects db).
                   ordered (cur_id, p) \<in> set (map pair_of ?t)"
        by auto
      from post_success [OF assms True this]
      show ?thesis by (simp add: map_pk_adjust_set map_pair_of_adjust_set)
    qed
  qed
  from a b c show ?thesis by blast
qed

theorem feedback_not_atomic_witness:
  "UpdateSimilarityView_post 1 2 [3, 4]
     \<lparr>Product_objects = [1, 2, 3, 4],
      ProductSimilarity_objects =
        [\<lparr>pk = Some 1, product_a = 1, product_b = 2, score = 0.5\<rparr>,
         \<lparr>pk = Some 2, product_a = 1, product_b = 3, score = 0.5\<rparr>]\<rparr>
   = (Inl Http404,
      \<lparr>Product_objects = [1, 2, 3, 4],
       ProductSimilarity_objects =
         [\<lparr>pk = Some 1, product_a = 1, product_b = 2, score = 0.6\<rparr>,
          \<lparr>pk = Some 2, product_a = 1, product_b = 3, score = 0.45\<rparr>]\<rparr>)
   \<and> UpdateSimilarityView_post 2 3 [1]
     \<lparr>Product_objects = [1, 2, 3, 4],
      ProductSimilarity_objects =
        [\<lparr>pk = Some 1, product_a = 1, product_b = 2, score = 0.5\<rparr>,
         \<lparr>pk = Some 2, product_a = 1, product_b = 3, score = 0.5\<rparr>]\<rparr>
   = (Inl Http404,
      \<lparr>Product_objects = [1, 2, 3, 4],
       ProductSimilarity_objects =
         [\<lparr>pk = Some 1, product_a = 1, product_b = 2, score = 0.5\<rparr>,
          \<lparr>pk = Some 2, product_a = 1, product_b = 3, score = 0.5\<rparr>]\<rparr>)"
proof -
  let ?db = "\<lparr>Product_objects = [1, 2, 3, 4],
      ProductSimilarity_objects =
        [\<lparr>pk = Some 1, product_a = 1, product_b = 2, score = 0.5\<rparr>,
         \<lparr>pk = Some 2, product_a = 1, product_b = 3, score = 0.5\<rparr>]\<rparr>"
  have wf: "wf_table (ProductSimilarity_objects ?db)" by (simp add: wf_table_def pair_of_def)
  have d: "distinct (Product_objects ?db)" by simp
  have m1: "1 \<in> set (Product_objects ?db)" by simp
  have m2: "2 \<in> set (Product_objects ?db)" by simp
  have m3: "3 \<in> set (Product_objects ?db)" by simp
  have p12: "ordered (1, 2) \<in> set (map pair_of (ProductSimilarity_objects ?db))"
    by (simp add: pair_of_def ordered_def)
  have f: "filter (\<lambda>p. p \<in> set [3, 4]) (Product_objects ?db) = [3] @ 4 # []" by simp
  have p13: "\<forall>q \<in> set [3]. ordered (1, q) \<in> set (map pair_of (ProductSimilarity_objects ?db))"
    by (simp add: pair_of_def ordered_def)
  have p14: "ordered (1, 4) \<notin> set (map pair_of (ProductSimilarity_objects ?db))"
    by (simp add: pair_of_def ordered_def)
  have p23: "ordered (2, 3) \<notin> set (map pair_of (ProductSimilarity_objects ?db))"
    by (simp add: pair_of_def ordered_def)
  from feedback_not_atomic [OF wf d m1 m2, of "[3, 4]" "[3]" 4 "[]"] p12 f p13 p14
  have A: "UpdateSimilarityView_post 1 2 [3, 4] ?db =
              (Inl Http404, ?db\<lparr>ProductSimilarity_objects :=
                 adjust_set (\<lambda>s. max (s - 0.05) 0.0) 1 (set [3])
                   (adjust_set (\<lambda>s. min (s + 0.1) 1.0) 1 {2}
                      (ProductSimilarity_objects ?db))\<rparr>)"
    by blast
  from feedback_not_atomic [OF wf d m2 m3, of "[1]"] p23
  have B: "UpdateSimilarityView_post 2 3 [1] ?db = (Inl Http404, ?db)"
    by blast
  from A B show ?thesis by (simp add: adjust_set_def pair_of_def ordered_def)
qed

end
